theory Spec2Isabelle
  imports Main "HOL-Library.Word"
begin

section \<open>Go strings and the library functions the program calls\<close>

text \<open>
  A Go string is a sequence of bytes, so it is modelled as \<open>string\<close> (a list of 8-bit
  characters); a character outside ASCII is the bytes of its UTF-8 encoding. The build
  that is modelled is the Unix one: \<open>os.PathSeparator\<close> is the slash.
\<close>

definition PathSeparator :: char where
  "PathSeparator = CHR ''/''"

text \<open>\<open>strings.HasPrefix\<close>.\<close>

definition HasPrefix :: "string \<Rightarrow> string \<Rightarrow> bool" where
  "HasPrefix s p = (take (length p) s = p)"

text \<open>
  \<open>strings.Replace(s, old, new, n)\<close> replaces the first \<open>n\<close> non-overlapping
  occurrences of \<open>old\<close>, scanning from the left; a negative \<open>n\<close> means no limit. Every
  call of this program passes a non-empty \<open>old\<close>; Go's rule for an empty \<open>old\<close> (insert
  at every rune boundary) is not modelled, the function returns \<open>s\<close> there.
\<close>

function Replace :: "string \<Rightarrow> string \<Rightarrow> string \<Rightarrow> int \<Rightarrow> string" where
  "Replace s old new n =
     (if n = 0 \<or> old = [] \<or> s = [] then s
      else if HasPrefix s old then new @ Replace (drop (length old) s) old new (n - 1)
      else hd s # Replace (tl s) old new n)"
  by pat_completeness auto
termination
  by (relation "measure (\<lambda>(s, old, new, n). length s)") auto

declare Replace.simps [simp del]

text \<open>
  \<open>strings.Split(s, sep)\<close> for a non-empty \<open>sep\<close>: the pieces between the occurrences of
  \<open>sep\<close>, scanning from the left; the result always has at least one piece (the empty
  string splits into one empty piece). \<open>Split_from cur\<close> carries the piece being read.
  The program only splits at the one-byte path separator; Go's rule for an empty \<open>sep\<close>
  is not modelled.
\<close>

function Split_from :: "string \<Rightarrow> string \<Rightarrow> string \<Rightarrow> string list" where
  "Split_from cur s sep =
     (if s = [] then [cur]
      else if sep \<noteq> [] \<and> HasPrefix s sep then cur # Split_from [] (drop (length sep) s) sep
      else Split_from (cur @ [hd s]) (tl s) sep)"
  by pat_completeness auto
termination
  by (relation "measure (\<lambda>(cur, s, sep). length s)") auto

declare Split_from.simps [simp del]

definition Split :: "string \<Rightarrow> string \<Rightarrow> string list" where
  "Split s sep = Split_from [] s sep"

text \<open>\<open>strings.Join\<close>.\<close>

fun Join_strings :: "string list \<Rightarrow> string \<Rightarrow> string" where
  "Join_strings [] sep = []"
| "Join_strings [e] sep = e"
| "Join_strings (e # es) sep = e @ sep @ Join_strings es sep"

text \<open>
  \<open>string(b)\<close> for a byte \<open>b\<close> is the UTF-8 encoding of the code point with the value of
  \<open>b\<close>, and \<open>strings.ToUpper\<close> maps each code point by \<open>unicode.ToUpper\<close>. Below
  \<open>0x100\<close> Unicode's simple upper-case mapping moves \<open>a\<close>..\<open>z\<close> and the Latin-1 small
  letters (all of \<open>0xE0\<close>..\<open>0xFE\<close> but the division sign) down by 32, the micro sign to
  the Greek capital mu and y-diaeresis to \<open>0x178\<close>, and leaves everything else.
\<close>

definition unicode_ToUpper :: "nat \<Rightarrow> nat" where
  "unicode_ToUpper r =
     (if 0x61 \<le> r \<and> r \<le> 0x7A then r - 32
      else if r = 0xB5 then 0x39C
      else if 0xE0 \<le> r \<and> r \<le> 0xFE \<and> r \<noteq> 0xF7 then r - 32
      else if r = 0xFF then 0x178
      else r)"

definition utf8 :: "nat \<Rightarrow> string" where
  "utf8 r =
     (if r < 0x80 then [char_of r]
      else if r < 0x800 then [char_of (0xC0 + r div 64), char_of (0x80 + r mod 64)]
      else if r < 0x10000 then
        [char_of (0xE0 + r div 4096), char_of (0x80 + (r div 64) mod 64), char_of (0x80 + r mod 64)]
      else
        [char_of (0xF0 + r div 262144), char_of (0x80 + (r div 4096) mod 64),
         char_of (0x80 + (r div 64) mod 64), char_of (0x80 + r mod 64)])"

definition ToUpper_byte :: "char \<Rightarrow> string" where
  "ToUpper_byte b = utf8 (unicode_ToUpper (of_char b))"

text \<open>
  \<open>regexp.MatchString("[A-Z]", s)\<close>: some code point of \<open>s\<close> is an ASCII capital. Every
  byte of a longer UTF-8 sequence is \<open>0x80\<close> or more, so the test on bytes is the test
  on code points.
\<close>

definition MatchString_A_Z :: "string \<Rightarrow> bool" where
  "MatchString_A_Z s = list_ex (\<lambda>c. 0x41 \<le> (of_char c :: nat) \<and> (of_char c :: nat) \<le> 0x5A) s"

text \<open>
  \<open>filepath.Ext\<close>: the suffix from the last dot of the last path element, empty when
  that element has no dot. The scan runs from the end of the path, as Go's loop does.
\<close>

fun Ext_scan :: "string \<Rightarrow> string \<Rightarrow> string" where
  "Ext_scan [] acc = []"
| "Ext_scan (c # rs) acc =
     (if c = PathSeparator then []
      else if c = CHR ''.'' then c # acc
      else Ext_scan rs (c # acc))"

definition Ext :: "string \<Rightarrow> string" where
  "Ext path = Ext_scan (rev path) []"

text \<open>
  \<open>filepath.Clean\<close> on Unix: empty and \<open>.\<close> elements go, an inner \<open>..\<close> takes the
  element before it with it, \<open>..\<close> at the start of a rooted path goes, and the empty
  result is \<open>.\<close>. \<open>filepath.Join\<close> joins from the first non-empty element on and cleans.
\<close>

definition Clean_step :: "bool \<Rightarrow> string \<Rightarrow> string list \<Rightarrow> string list" where
  "Clean_step rooted c stack =
     (if c = ''..'' then
        (if stack \<noteq> [] \<and> last stack \<noteq> ''..'' then butlast stack
         else if rooted then stack
         else stack @ [c])
      else stack @ [c])"

definition Clean :: "string \<Rightarrow> string" where
  "Clean path =
     (let rooted = HasPrefix path [PathSeparator];
          elems = filter (\<lambda>c. c \<noteq> [] \<and> c \<noteq> ''.'') (Split path [PathSeparator]);
          out = (if rooted then [PathSeparator] else [])
                @ Join_strings (fold (Clean_step rooted) elems []) [PathSeparator]
      in if out = [] then ''.'' else out)"

definition Join :: "string list \<Rightarrow> string" where
  "Join elem =
     (case dropWhile (\<lambda>e. e = []) elem of
        [] \<Rightarrow> []
      | es \<Rightarrow> Clean (Join_strings es [PathSeparator]))"

section \<open>Package transform\<close>

text \<open>
  An ID3 tag as the program reads it: the four named fields and the text frames by
  frame id (\<open>GetTextFrame(id).Text\<close> is empty for a frame the tag does not have).
\<close>

record Tag =
  Artist :: string
  Album :: string
  Year :: string
  Title :: string
  GetTextFrame :: "string \<Rightarrow> string"

text \<open>\<open>os.FileInfo\<close> (name of the last path element, size in bytes) and \<open>mp3files.File\<close>;
  \<open>Info\<close> is an interface value and may be nil.\<close>

record FileInfo =
  Info_Name :: string
  Info_Size :: "64 word"

record File =
  Name :: string
  Info :: "FileInfo option"

datatype panic = IndexOutOfRange | NilDereference

datatype error =
    errPathNotExisting string
  | errWriteLog string
  | errAbortedByUser
  | ErrParseTag string string
  | errSeeLog
  | errNotEnoughSpace "64 word"
  | External string

text \<open>Decimal digits of a number, as \<open>%d\<close> prints them.\<close>

function decimal :: "nat \<Rightarrow> string" where
  "decimal n = (if n < 10 then [char_of (48 + n)] else decimal (n div 10) @ [char_of (48 + n mod 10)])"
  by pat_completeness auto
termination
  by (relation "measure id") auto

declare decimal.simps [simp del]

definition Sprint_d :: "int \<Rightarrow> string" where
  "Sprint_d i = (if i < 0 then ''-'' @ decimal (nat (- i)) else decimal (nat i))"

text \<open>The message of an error, \<open>e.Error()\<close>.\<close>

definition Error :: "error \<Rightarrow> string" where
  "Error e =
     (case e of
        errPathNotExisting path \<Rightarrow> ''path does not exist: '' @ path
      | errWriteLog cause \<Rightarrow> ''failed to write log file: '' @ cause
      | errAbortedByUser \<Rightarrow> ''aborted by user''
      | ErrParseTag name cause \<Rightarrow> ''failed to parse mp3 tag from '' @ name @ '': '' @ cause
      | errSeeLog \<Rightarrow> ''see log for more details''
      | errNotEnoughSpace n \<Rightarrow>
          ''not enough free disk space, need '' @ Sprint_d (sint n) @ '' more bytes''
      | External msg \<Rightarrow> msg)"

definition defaultSubfolder :: string where
  "defaultSubfolder = ''default''"

definition numericSubfolder :: string where
  "numericSubfolder = ''#''"

definition frameIDDisk :: string where
  "frameIDDisk = ''TPOS''"

definition frameIDTrack :: string where
  "frameIDTrack = ''TRCK''"

text \<open>The substitution table of \<open>replaceChars\<close>, in the order of the source text. The
  inverted question mark is the two bytes of its UTF-8 encoding.\<close>

definition chars :: "(string \<times> string) list" where
  "chars =
     [('':'', '';''),
      ([CHR 0x5C], []),
      (''/'', []),
      (''?'', [CHR 0xC2, CHR 0xBF]),
      ([CHR 0x22], '',''),
      ([CHR 0x27], '',''),
      (''*'', ''x''),
      (''+'', ''x''),
      (''['', ''(''),
      ('']'', '')''),
      (''>'', ''-''),
      (''<'', ''-''),
      (''|'', ''-'')]"

text \<open>
  \<open>replaceChars\<close> ranges over a Go map, whose iteration order is not specified:
  \<open>replaceChars_in\<close> is the loop for a given order of the entries, \<open>replaceChars\<close> the
  loop in the order of the source text. Lemma \<open>replaceChars_in_any_order\<close> below shows
  that every order computes the same string.
\<close>

definition replaceChars_in :: "(string \<times> string) list \<Rightarrow> string \<Rightarrow> string" where
  "replaceChars_in entries s = fold (\<lambda>(k, v) s. Replace s k v (- 1)) entries s"

definition replaceChars :: "string \<Rightarrow> string" where
  "replaceChars s = replaceChars_in chars s"

definition getFileName :: "'a Tag_scheme \<Rightarrow> string \<Rightarrow> string \<times> error option" where
  "getFileName tag ext =
     (let name = Artist tag;
          name = (if Album tag \<noteq> [] then name @ '' - '' @ Album tag else name);
          name = (if Year tag \<noteq> [] then name @ '' ('' @ Year tag @ '')'' else name);
          disk = GetTextFrame tag frameIDDisk;
          name = (if disk \<noteq> [] then name @ '' - '' @ disk else name);
          track = GetTextFrame tag frameIDTrack;
          name = (if track \<noteq> [] then
                    name @ '' - '' @ (if length track = 1 then ''0'' @ track else track)
                  else name)
      in (replaceChars (name @ '' - '' @ Title tag @ ext), None))"

text \<open>\<open>parts[0][0]\<close>: indexing a string panics past its end.\<close>

definition byte_at :: "string \<Rightarrow> nat \<Rightarrow> panic + char" where
  "byte_at s i = (if i < length s then Inr (s ! i) else Inl IndexOutOfRange)"

definition getSubFolder :: "string \<Rightarrow> string \<Rightarrow> panic + string" where
  "getSubFolder fileName source =
     (let subFolder = defaultSubfolder;
          source = Replace fileName (source @ [PathSeparator]) [] 1;
          parts = Split source [PathSeparator]
      in case (if length parts > 0 then
                 (case byte_at (parts ! 0) 0 of
                    Inl p \<Rightarrow> Inl p
                  | Inr b \<Rightarrow> Inr (ToUpper_byte b))
               else Inr subFolder) of
           Inl p \<Rightarrow> Inl p
         | Inr subFolder \<Rightarrow>
             Inr (if \<not> MatchString_A_Z subFolder then numericSubfolder else subFolder))"


text \<open>
  \<open>config.Tag\<close>, \<open>Contains\<close> and \<open>loadTag\<close> are not among the sources. \<open>Do\<close> only takes
  the length of a filter and asks \<open>Contains\<close>, so a filter is a list of entries of any
  type \<open>'e\<close>, and \<open>Contains\<close> and \<open>loadTag\<close> are parameters of the model.
\<close>

definition Do ::
  "(File \<Rightarrow> string + 'a Tag_scheme) \<Rightarrow> ('e list \<Rightarrow> 'a Tag_scheme \<Rightarrow> bool) \<Rightarrow>
   string \<Rightarrow> string \<Rightarrow> File \<Rightarrow> 'e list \<Rightarrow> 'e list \<Rightarrow> panic + (string \<times> error option)" where
  "Do loadTag Contains destination source f whiteList blackList =
     (case loadTag f of
        Inl err \<Rightarrow> Inr ([], Some (ErrParseTag (Name f) err))
      | Inr tag \<Rightarrow>
          if (length whiteList > 0 \<and> \<not> Contains whiteList tag)
             \<or> (length blackList > 0 \<and> Contains blackList tag)
          then Inr ([], None)
          else
            (case Info f of
               None \<Rightarrow> Inl NilDereference
             | Some info \<Rightarrow>
                 (case getFileName tag (Ext (Info_Name info)) of
                    (name, Some err) \<Rightarrow> Inr ([], Some (ErrParseTag (Name f) (Error err)))
                  | (name, None) \<Rightarrow>
                      (case getSubFolder (Name f) source of
                         Inl p \<Rightarrow> Inl p
                       | Inr subFolder \<Rightarrow> Inr (Join [destination, subFolder, name], None)))))"

section \<open>Package main\<close>

text \<open>
  The program's effects are explicit. What it reads from outside (the answers typed at
  the prompts, the clock, whether the operating system opens and writes a file, and the
  results of the packages whose code is not among the sources) is an environment of
  functions; what it changes (the log files, the copies it asks for) is a \<open>World\<close>
  passed through and returned. Terminal output is not part of the model.
\<close>

record SyncFile =
  Source :: File
  Destination :: File

record Config =
  cfg_Source :: string
  cfg_Destination :: string

record Time =
  year :: nat
  month :: nat
  day :: nat
  hour :: nat
  minute :: nat
  second :: nat

record Handle =
  h_name :: string
  h_flag :: "32 word"

datatype event = sync_Do_call SyncFile | filesync_Do_call "SyncFile list"

record World =
  contents :: "string \<rightharpoonup> string"
  trace :: "event list"
  clock_reads :: nat

record Env =
  prompt_Input :: "string \<Rightarrow> string"
  time_Now :: "nat \<Rightarrow> Time"
  OpenFile_fails :: "string \<Rightarrow> 32 word \<Rightarrow> nat \<Rightarrow> string option"
  WriteString_fails :: "Handle \<Rightarrow> string \<Rightarrow> string option"

definition configFile :: string where
  "configFile = ''config.json''"

definition logPath :: string where
  "logPath = ''logs''"

definition logFileNameFormat :: string where
  "logFileNameFormat = ''20060102-150405''"

subsection \<open>Formatting\<close>

text \<open>\<open>appendInt\<close> of package time: the number in decimal, with zeros in front up to
  \<open>width\<close> digits.\<close>

definition appendInt :: "nat \<Rightarrow> nat \<Rightarrow> string" where
  "appendInt x width = replicate (width - length (decimal x)) (CHR ''0'') @ decimal x"

text \<open>
  \<open>Time.Format\<close> for the layout elements that \<open>logFileNameFormat\<close> uses: \<open>2006\<close> is the
  year in four digits, \<open>01\<close> the month, \<open>02\<close> the day, \<open>15\<close> the hour, \<open>04\<close> the minute
  and \<open>05\<close> the second in two digits; any other byte is copied. The other layout
  elements of Go are not modelled.
\<close>

function Format :: "Time \<Rightarrow> string \<Rightarrow> string" where
  "Format t layout =
     (if layout = [] then []
      else if HasPrefix layout ''2006'' then appendInt (year t) 4 @ Format t (drop 4 layout)
      else if HasPrefix layout ''01'' then appendInt (month t) 2 @ Format t (drop 2 layout)
      else if HasPrefix layout ''02'' then appendInt (day t) 2 @ Format t (drop 2 layout)
      else if HasPrefix layout ''15'' then appendInt (hour t) 2 @ Format t (drop 2 layout)
      else if HasPrefix layout ''04'' then appendInt (minute t) 2 @ Format t (drop 2 layout)
      else if HasPrefix layout ''05'' then appendInt (second t) 2 @ Format t (drop 2 layout)
      else hd layout # Format t (tl layout))"
  by pat_completeness auto
termination
  by (relation "measure (\<lambda>(t, layout). length layout)") auto

declare Format.simps [simp del]

text \<open>
  \<open>strings.ToLower\<close> on the ASCII letters. The program only compares the result with
  \<open>"n"\<close>; no code point outside ASCII has \<open>n\<close> as its lower case, so the comparison is
  the one Go makes.
\<close>

definition ToLower :: "string \<Rightarrow> string" where
  "ToLower s =
     map (\<lambda>c. if 0x41 \<le> (of_char c :: nat) \<and> (of_char c :: nat) \<le> 0x5A
               then char_of ((of_char c :: nat) + 32) else c) s"

text \<open>\<open>errors.Is(e, errAbortedByUser)\<close>: no error of the program wraps
  \<open>errAbortedByUser\<close>, and no other package can name it.\<close>

definition is_errAbortedByUser :: "error \<Rightarrow> bool" where
  "is_errAbortedByUser e = (e = errAbortedByUser)"

subsection \<open>The log file\<close>

definition O_CREATE :: "32 word" where
  "O_CREATE = 0x40"

definition O_APPEND :: "32 word" where
  "O_APPEND = 0x400"

text \<open>
  \<open>os.OpenFile\<close>: whether the call fails is the operating system's answer. With
  \<open>O_CREATE\<close> a file that does not exist is created empty. The handle keeps the flags:
  whether it accepts a write is again the operating system's answer, given the handle.
\<close>

definition OpenFile ::
  "'a Env_scheme \<Rightarrow> string \<Rightarrow> 32 word \<Rightarrow> nat \<Rightarrow> World \<Rightarrow> (string + Handle) \<times> World" where
  "OpenFile env name flag perm w =
     (case OpenFile_fails env name flag perm of
        Some msg \<Rightarrow> (Inl msg, w)
      | None \<Rightarrow>
          (Inr \<lparr>h_name = name, h_flag = flag\<rparr>,
           if and flag O_CREATE \<noteq> 0 \<and> contents w name = None
           then w\<lparr>contents := (contents w)(name \<mapsto> [])\<rparr> else w))"

text \<open>The permission bits \<open>0o600\<close> of the call in \<open>logErrors\<close> are \<open>0x180\<close> below.
  \<open>File.WriteString\<close> on a handle opened with \<open>O_APPEND\<close>: the bytes go to the end
  of the file.\<close>

definition WriteString ::
  "'a Env_scheme \<Rightarrow> Handle \<Rightarrow> string \<Rightarrow> World \<Rightarrow> string option \<times> World" where
  "WriteString env h data w =
     (case WriteString_fails env h data of
        Some msg \<Rightarrow> (Some msg, w)
      | None \<Rightarrow>
          (None,
           w\<lparr>contents := (contents w)(h_name h \<mapsto>
                (case contents w (h_name h) of None \<Rightarrow> data | Some old \<Rightarrow> old @ data))\<rparr>))"

text \<open>
  What Unix answers to a write. \<open>O_RDONLY\<close> is 0, so a file opened with neither
  \<open>O_WRONLY\<close> nor \<open>O_RDWR\<close> is open for reading only, and a write on its descriptor
  fails with \<open>EBADF\<close>, which Go reports as \<open>write <name>: bad file descriptor\<close>.
\<close>

definition O_WRONLY :: "32 word" where
  "O_WRONLY = 0x1"

definition O_RDWR :: "32 word" where
  "O_RDWR = 0x2"

definition unix_WriteString_fails :: "Handle \<Rightarrow> string \<Rightarrow> string option" where
  "unix_WriteString_fails h data =
     (if and (h_flag h) (or O_WRONLY O_RDWR) = 0
      then Some (''write '' @ h_name h @ '': bad file descriptor'')
      else None)"

fun logErrors_loop ::
  "'a Env_scheme \<Rightarrow> Handle \<Rightarrow> error list \<Rightarrow> World \<Rightarrow> error option \<times> World" where
  "logErrors_loop env logFile [] w = (None, w)"
| "logErrors_loop env logFile (e # errs) w =
     (case WriteString env logFile (Error e @ [CHR 0x0A]) w of
        (Some msg, w) \<Rightarrow> (Some (errWriteLog msg), w)
      | (None, w) \<Rightarrow> logErrors_loop env logFile errs w)"

definition logErrors ::
  "'a Env_scheme \<Rightarrow> error list \<Rightarrow> World \<Rightarrow> (string \<times> error option) \<times> World" where
  "logErrors env errs w =
     (let logFileName =
            Join [''.'', logPath, Format (time_Now env (clock_reads w)) logFileNameFormat @ ''.log''];
          w = w\<lparr>clock_reads := Suc (clock_reads w)\<rparr>
      in case OpenFile env logFileName (or O_CREATE O_APPEND) 0x180 w of
           (Inl msg, w) \<Rightarrow> ((logFileName, Some (errWriteLog msg)), w)
         | (Inr logFile, w) \<Rightarrow>
             (case logErrors_loop env logFile errs w of
                (err, w) \<Rightarrow> ((logFileName, err), w)))"

definition showErrors ::
  "'a Env_scheme \<Rightarrow> string \<Rightarrow> error list \<Rightarrow> World \<Rightarrow> error option \<times> World" where
  "showErrors env logFileName errs w =
     (let t = prompt_Input env ''Continue (errored files will be skipped)? [Y/n/s = show files] ''
      in if ToLower t = ''n'' then (Some errAbortedByUser, w)
         else (None, w))"

definition showAndLogErrors ::
  "'a Env_scheme \<Rightarrow> error list \<Rightarrow> World \<Rightarrow> error option \<times> World" where
  "showAndLogErrors env errs w =
     (case logErrors env errs w of
        ((logFileName, Some err), w) \<Rightarrow> (Some err, w)
      | ((logFileName, None), w) \<Rightarrow> showErrors env logFileName errs w)"


subsection \<open>The program of \<open>unnamed/part_000\<close>\<close>

text \<open>
  What this file calls and the sources do not hold: \<open>osutils.FileOrPathExists\<close>,
  \<open>mp3files.GetFileList\<close>, the three-argument \<open>transform.Do\<close>, \<open>os.Lstat\<close>,
  \<open>disk.GetInfo\<close> (its \<open>Free\<close> field, an unsigned 64-bit number) and \<open>sync.Do\<close>, whose
  outcome may depend on what was copied before.
\<close>

record Env_part_000 = Env +
  FileOrPathExists :: "string \<Rightarrow> bool"
  GetFileList :: "string \<Rightarrow> error + File list"
  transform_Do :: "string \<Rightarrow> string \<Rightarrow> File \<Rightarrow> string \<times> error option"
  Lstat :: "string \<Rightarrow> error + FileInfo"
  GetInfo_Free :: "string \<Rightarrow> error + 64 word"
  sync_Do :: "SyncFile \<Rightarrow> World \<Rightarrow> error option"

text \<open>
  Modelled from the spec: \<open>IsInSync\<close> of \<open>sync.File\<close> is not among the sources. The spec:
  "\<open>IsInSync()\<close> holds iff destination exists and \<open>source.size == destination.size\<close>".
  A destination exists when it carries the file information \<open>diff\<close> read for it.
\<close>

definition IsInSync :: "SyncFile \<Rightarrow> bool" where
  "IsInSync f =
     (case Info (Destination f) of
        None \<Rightarrow> False
      | Some d \<Rightarrow> (case Info (Source f) of None \<Rightarrow> False | Some s \<Rightarrow> Info_Size s = Info_Size d))"

text \<open>
  Modelled from the spec: \<open>SpaceNeeded\<close> of \<open>sync.Files\<close> is not among the sources. The
  spec: "\<open>needed\<close> = sum of \<open>source.size\<close> across the plan", a signed 64-bit number.
\<close>

definition SpaceNeeded :: "SyncFile list \<Rightarrow> 64 word" where
  "SpaceNeeded files =
     sum_list (map (\<lambda>f. case Info (Source f) of None \<Rightarrow> 0 | Some s \<Rightarrow> Info_Size s) files)"

definition readFileList :: "'a Env_part_000_scheme \<Rightarrow> string \<Rightarrow> error + File list" where
  "readFileList env path = GetFileList env path"

fun diff_loop ::
  "'a Env_part_000_scheme \<Rightarrow> File list \<Rightarrow> string \<Rightarrow> string \<Rightarrow> SyncFile list \<Rightarrow> error list \<Rightarrow>
   SyncFile list \<times> error list" where
  "diff_loop env [] destination source syncFiles errs = (syncFiles, errs)"
| "diff_loop env (v # fileList) destination source syncFiles errs =
     (case transform_Do env destination source v of
        (destinatonFileName, Some err) \<Rightarrow>
          diff_loop env fileList destination source syncFiles (errs @ [err])
      | (destinatonFileName, None) \<Rightarrow>
          (let destFile = \<lparr>Name = destinatonFileName, Info = None\<rparr>
           in case (if FileOrPathExists env destinatonFileName then
                      (case Lstat env destinatonFileName of
                         Inl err \<Rightarrow> Inl err
                       | Inr info \<Rightarrow> Inr (destFile\<lparr>Info := Some info\<rparr>))
                    else Inr destFile) of
                Inl err \<Rightarrow> diff_loop env fileList destination source syncFiles (errs @ [err])
              | Inr destFile \<Rightarrow>
                  (let f = \<lparr>Source = v, Destination = destFile\<rparr>
                   in diff_loop env fileList destination source
                        (if \<not> IsInSync f then syncFiles @ [f] else syncFiles) errs)))"

definition diff ::
  "'a Env_part_000_scheme \<Rightarrow> File list \<Rightarrow> string \<Rightarrow> string \<Rightarrow> SyncFile list \<times> error list" where
  "diff env fileList destination source = diff_loop env fileList destination source [] []"

text \<open>\<open>listDiff\<close> asks whether to print the plan and prints it: it changes nothing.\<close>

definition listDiff :: "'a Env_scheme \<Rightarrow> SyncFile list \<Rightarrow> World \<Rightarrow> World" where
  "listDiff env files w = w"

fun snycFiles_loop ::
  "'a Env_part_000_scheme \<Rightarrow> SyncFile list \<Rightarrow> error list \<Rightarrow> World \<Rightarrow> error list \<times> World" where
  "snycFiles_loop env [] errs w = (errs, w)"
| "snycFiles_loop env (v # files) errs w =
     (let err = sync_Do env v w;
          w = w\<lparr>trace := trace w @ [sync_Do_call v]\<rparr>
      in snycFiles_loop env files (case err of Some e \<Rightarrow> errs @ [e] | None \<Rightarrow> errs) w)"

definition snycFiles ::
  "'a Env_part_000_scheme \<Rightarrow> SyncFile list \<Rightarrow> World \<Rightarrow> error list \<times> World" where
  "snycFiles env files w =
     (let errs = [];
          t = prompt_Input env ''Start Sync? [Y/n] ''
      in if ToLower t = ''n'' then (errs @ [errAbortedByUser], w)
         else snycFiles_loop env files errs w)"

definition diskSpace :: "'a Env_part_000_scheme \<Rightarrow> SyncFile list \<Rightarrow> string \<Rightarrow> error option" where
  "diskSpace env files destination =
     (case GetInfo_Free env destination of
        Inl err \<Rightarrow> Some err
      | Inr Free \<Rightarrow>
          (let needed = SpaceNeeded files;
               left = Free - needed
           in if sint left < 1 then Some (errNotEnoughSpace (left * (- 1)))
              else None))"

definition do_part_000 ::
  "'a Env_part_000_scheme \<Rightarrow> Config \<Rightarrow> World \<Rightarrow> error option \<times> World" where
  "do_part_000 env conf w =
     (if \<not> FileOrPathExists env (cfg_Source conf) then
        (Some (errPathNotExisting (cfg_Source conf)), w)
      else if \<not> FileOrPathExists env (cfg_Destination conf) then
        (Some (errPathNotExisting (cfg_Destination conf)), w)
      else
        (case readFileList env (cfg_Source conf) of
           Inl err \<Rightarrow> (Some err, w)
         | Inr fileList \<Rightarrow>
             (case diff env fileList (cfg_Destination conf) (cfg_Source conf) of
                (syncFiles, errs) \<Rightarrow>
                  (case (if length errs > 0 then
                           (case showAndLogErrors env errs w of
                              (Some err, w) \<Rightarrow> (Inl err, w)
                            | (None, w) \<Rightarrow> (Inr True, w))
                         else (Inr False, w)) of
                     (Inl err, w) \<Rightarrow> (Some err, w)
                   | (Inr globErr, w) \<Rightarrow>
                       (let w = listDiff env syncFiles w
                        in case diskSpace env syncFiles (cfg_Destination conf) of
                             Some err \<Rightarrow> (Some err, w)
                           | None \<Rightarrow>
                               (case snycFiles env syncFiles w of
                                  (errs, w) \<Rightarrow>
                                    (case (if length errs > 1 then
                                             (if is_errAbortedByUser (errs ! 0) then (Inl (errs ! 0), w)
                                              else
                                                (case logErrors env errs w of
                                                   ((logFileName, Some err), w) \<Rightarrow> (Inl err, w)
                                                 | ((logFileName, None), w) \<Rightarrow> (Inr True, w)))
                                           else (Inr globErr, w)) of
                                       (Inl err, w) \<Rightarrow> (Some err, w)
                                     | (Inr globErr, w) \<Rightarrow>
                                         if globErr then (Some errSeeLog, w) else (None, w))))))))"

subsection \<open>The program of \<open>main.go\<close>\<close>

text \<open>
  \<open>main.go\<close> hands most of the work to packages the sources do not hold; their results
  are the environment: what the two scans send on their channels (the source scan with
  the filter, the destination scan without), the transformed entries and errors of the
  batch \<open>transform.Do\<close> (entries of some type \<open>'t\<close>), the plan \<open>diff\<close> makes of them,
  the answer of \<open>filesync.CalculateDiskSpace\<close> and the errors of \<open>filesync.Do\<close>.
\<close>

record DiskSpace =
  ds_Free :: string
  ds_Needed :: string
  ds_Left :: string

record 't Env_main = Env +
  readFileList_sends :: "string \<Rightarrow> bool \<Rightarrow> error + File list"
  transform_Do_batch :: "File list \<Rightarrow> string \<Rightarrow> string \<Rightarrow> 't list \<times> error list"
  diff_plan :: "'t list \<Rightarrow> File list \<Rightarrow> SyncFile list"
  CalculateDiskSpace :: "SyncFile list \<Rightarrow> string \<Rightarrow> error + DiskSpace"
  filesync_Do :: "SyncFile list \<Rightarrow> World \<Rightarrow> error list"

definition do :: "('t, 'a) Env_main_scheme \<Rightarrow> Config \<Rightarrow> World \<Rightarrow> error option \<times> World" where
  "do env conf w =
     (case readFileList_sends env (cfg_Source conf) True of
        Inl err \<Rightarrow> (Some err, w)
      | Inr sourceFiles \<Rightarrow>
     (case readFileList_sends env (cfg_Destination conf) False of
        Inl err \<Rightarrow> (Some err, w)
      | Inr destinationFiles \<Rightarrow>
     (case transform_Do_batch env sourceFiles (cfg_Destination conf) (cfg_Source conf) of
        (transformedSource, errs) \<Rightarrow>
     (case (if length errs > 0 then
              (case showAndLogErrors env errs w of
                 (Some err, w) \<Rightarrow> (Inl err, w)
               | (None, w) \<Rightarrow> (Inr True, w))
            else (Inr False, w)) of
        (Inl err, w) \<Rightarrow> (Some err, w)
      | (Inr globErr, w) \<Rightarrow>
          (let syncFiles = diff_plan env transformedSource destinationFiles;
               w = listDiff env syncFiles w
           in case CalculateDiskSpace env syncFiles (cfg_Destination conf) of
                Inl err \<Rightarrow> (Some err, w)
              | Inr ds \<Rightarrow>
                  (let t = prompt_Input env ''Start Sync? [Y/n] ''
                   in if ToLower t = ''n'' then (Some errAbortedByUser, w)
                      else
                        (let errs = filesync_Do env syncFiles w;
                             w = w\<lparr>trace := trace w @ [filesync_Do_call syncFiles]\<rparr>
                         in case (if length errs > 1 then
                                    (if is_errAbortedByUser (errs ! 0) then (Inl (errs ! 0), w)
                                     else
                                       (case logErrors env errs w of
                                          ((logFileName, Some err), w) \<Rightarrow> (Inl err, w)
                                        | ((logFileName, None), w) \<Rightarrow> (Inr True, w)))
                                  else (Inr globErr, w)) of
                              (Inl err, w) \<Rightarrow> (Some err, w)
                            | (Inr globErr, w) \<Rightarrow>
                                if globErr then (Some errSeeLog, w) else (None, w))))))))"


section \<open>Notions used to state the properties\<close>

text \<open>The substitution of one byte that a table stands for, and what a table needs
  for the order of its entries not to matter: one-byte keys, no key twice, and no byte
  of a replacement that is a key.\<close>

definition subst_of :: "(string \<times> string) list \<Rightarrow> char \<Rightarrow> string" where
  "subst_of entries c = (case map_of entries [c] of Some v \<Rightarrow> v | None \<Rightarrow> [c])"

definition table_ok :: "(string \<times> string) list \<Rightarrow> bool" where
  "table_ok entries =
     (distinct (map fst entries)
      \<and> (\<forall>(k, v) \<in> set entries. length k = 1 \<and> (\<forall>c \<in> set v. [c] \<notin> fst ` set entries)))"

definition is_capital :: "char \<Rightarrow> bool" where
  "is_capital c = (0x41 \<le> (of_char c :: nat) \<and> (of_char c :: nat) \<le> 0x5A)"

text \<open>The order of Go's strings: byte by byte, a proper prefix first.\<close>

fun string_less :: "string \<Rightarrow> string \<Rightarrow> bool" where
  "string_less [] [] = False"
| "string_less [] (y # ys) = True"
| "string_less (x # xs) [] = False"
| "string_less (x # xs) (y # ys) =
     ((of_char x :: nat) < of_char y \<or> (x = y \<and> string_less xs ys))"

text \<open>A clock reading of the calendar (four-digit year), and the order of two readings
  in time.\<close>

definition Time_valid :: "Time \<Rightarrow> bool" where
  "Time_valid t =
     (year t < 10000 \<and> 1 \<le> month t \<and> month t \<le> 12 \<and> 1 \<le> day t \<and> day t \<le> 31
      \<and> hour t < 24 \<and> minute t < 60 \<and> second t < 60)"

definition Time_before :: "Time \<Rightarrow> Time \<Rightarrow> bool" where
  "Time_before a b =
     (year a < year b \<or> (year a = year b \<and>
     (month a < month b \<or> (month a = month b \<and>
     (day a < day b \<or> (day a = day b \<and>
     (hour a < hour b \<or> (hour a = hour b \<and>
     (minute a < minute b \<or> (minute a = minute b \<and> second a < second b))))))))))"

text \<open>The last \<open>w\<close> decimal digits of a number.\<close>

primrec fixed_digits :: "nat \<Rightarrow> nat \<Rightarrow> string" where
  "fixed_digits 0 n = []"
| "fixed_digits (Suc w) n = fixed_digits w (n div 10) @ [char_of (48 + n mod 10)]"

text \<open>The world after \<open>sync.Do\<close> was called for the files \<open>fs\<close> in turn, and the errors
  of the copies of a plan, each copy in the world the copies before it left.\<close>

definition after_copies :: "World \<Rightarrow> SyncFile list \<Rightarrow> World" where
  "after_copies w fs = w\<lparr>trace := trace w @ map sync_Do_call fs\<rparr>"

definition copy_errors :: "'a Env_part_000_scheme \<Rightarrow> SyncFile list \<Rightarrow> World \<Rightarrow> error list" where
  "copy_errors env files w =
     List.map_filter (\<lambda>i. sync_Do env (files ! i) (after_copies w (take i files))) [0..<length files]"


section \<open>Example runs\<close>

text \<open>A small environment to run the programs in: both roots exist, the scan finds
  the given files, every destination is new, and nothing fails but what the parameters
  say (the answer to the start prompt, the outcome of a copy, the free space).\<close>

definition song :: "string \<Rightarrow> 64 word \<Rightarrow> File" where
  "song name bytes = \<lparr>Name = ''/music/'' @ name, Info = Some \<lparr>Info_Name = name, Info_Size = bytes\<rparr>\<rparr>"

definition planned :: "string \<Rightarrow> 64 word \<Rightarrow> SyncFile" where
  "planned name bytes =
     \<lparr>Source = song name bytes, Destination = \<lparr>Name = ''/dst/A/'' @ name, Info = None\<rparr>\<rparr>"

definition example_env ::
  "string \<Rightarrow> File list \<Rightarrow> (SyncFile \<Rightarrow> error option) \<Rightarrow> 64 word \<Rightarrow> Env_part_000" where
  "example_env answer fileList copy free =
     \<lparr>prompt_Input = (\<lambda>q. if q = ''Start Sync? [Y/n] '' then answer else []),
      time_Now = (\<lambda>n. \<lparr>year = 2024, month = 1, day = 2, hour = 3, minute = 4, second = 5 + n\<rparr>),
      OpenFile_fails = (\<lambda>name flag perm. None),
      WriteString_fails = (\<lambda>h data. None),
      FileOrPathExists = (\<lambda>path. path = ''/music'' \<or> path = ''/dst''),
      GetFileList = (\<lambda>path. Inr fileList),
      transform_Do =
        (\<lambda>destination source f.
           (destination @ ''/A/'' @ (case Info f of None \<Rightarrow> [] | Some i \<Rightarrow> Info_Name i), None)),
      Lstat = (\<lambda>path. Inl (External ''no such file'')),
      GetInfo_Free = (\<lambda>path. Inr free),
      sync_Do = (\<lambda>f w. copy f)\<rparr>"

definition example_env_main :: "string \<Rightarrow> error list \<Rightarrow> File Env_main" where
  "example_env_main answer copy_errs =
     \<lparr>prompt_Input = (\<lambda>q. if q = ''Start Sync? [Y/n] '' then answer else []),
      time_Now = (\<lambda>n. \<lparr>year = 2024, month = 1, day = 2, hour = 3, minute = 4, second = 5 + n\<rparr>),
      OpenFile_fails = (\<lambda>name flag perm. None),
      WriteString_fails = (\<lambda>h data. None),
      readFileList_sends = (\<lambda>path filtered. if filtered then Inr [song ''a.mp3'' 400] else Inr []),
      transform_Do_batch = (\<lambda>fileList destination source. (fileList, [])),
      diff_plan = (\<lambda>transformed destinationFiles. [planned ''a.mp3'' 400]),
      CalculateDiskSpace =
        (\<lambda>fs destination. Inr \<lparr>ds_Free = ''1.0 kB'', ds_Needed = ''400 B'', ds_Left = ''600 B''\<rparr>),
      filesync_Do = (\<lambda>fs w. copy_errs)\<rparr>"

text \<open>The same environment with the answer of Unix to a write.\<close>

definition example_env_unix :: Env_part_000 where
  "example_env_unix =
     (example_env [] [] (\<lambda>f. None) 1000)\<lparr>WriteString_fails := unix_WriteString_fails\<rparr>"

definition no_frames :: "string \<Rightarrow> string" where
  "no_frames frameID = []"

definition conf0 :: Config where
  "conf0 = \<lparr>cfg_Source = ''/music'', cfg_Destination = ''/dst''\<rparr>"

definition w0 :: World where
  "w0 = \<lparr>contents = Map.empty, trace = [], clock_reads = 0\<rparr>"

section \<open>The substitution table\<close>

lemma Replace_all_single:
  "n < 0 \<Longrightarrow> Replace s [k] v n = concat (map (\<lambda>c. if c = k then v else [c]) s)"
proof (induction s arbitrary: n)
  case Nil
  then show ?case by (simp add: Replace.simps)
next
  case (Cons c s)
  from Cons.prems have n1: "n - 1 < 0" and n0: "n \<noteq> 0" by simp_all
  show ?case
    using Cons.IH [OF n1] Cons.IH [OF Cons.prems] n0
    by (subst Replace.simps) (simp add: HasPrefix_def)
qed

lemma replaceChars_in_subst:
  "table_ok entries \<Longrightarrow> replaceChars_in entries s = concat (map (subst_of entries) s)"
proof (induction entries arbitrary: s)
  case Nil
  then show ?case by (simp add: replaceChars_in_def subst_of_def)
next
  case (Cons e entries)
  obtain k v where e: "e = (k, v)" by (cases e)
  from Cons.prems e obtain c where k: "k = [c]"
    by (auto simp: table_ok_def length_Suc_conv)
  have ok: "table_ok entries"
    using Cons.prems by (simp add: table_ok_def case_prod_beta)
  have fresh: "\<forall>x \<in> set v. map_of entries [x] = None"
    using Cons.prems e by (auto simp: table_ok_def map_of_eq_None_iff)
  have notin: "map_of entries [c] = None"
    using Cons.prems e k by (auto simp: table_ok_def map_of_eq_None_iff)
  have v_fixed: "concat (map (subst_of entries) v) = v"
    using fresh by (induction v) (auto simp: subst_of_def)
  have "replaceChars_in (e # entries) s = replaceChars_in entries (Replace s [c] v (- 1))"
    by (simp add: replaceChars_in_def e k)
  also have "\<dots> = concat (map (subst_of entries) (concat (map (\<lambda>x. if x = c then v else [x]) s)))"
    by (simp add: Cons.IH [OF ok] Replace_all_single)
  also have "\<dots> = concat (map (subst_of (e # entries)) s)"
    using v_fixed notin by (induction s) (auto simp: subst_of_def e k)
  finally show ?case .
qed



lemma table_ok_fresh:
  assumes "table_ok entries" and "(k, v) \<in> set entries" and "c \<in> set v"
  shows "[c] \<notin> fst ` set entries"
proof -
  from assms(1) have "\<forall>e \<in> set entries. \<forall>c \<in> set (snd e). [c] \<notin> fst ` set entries"
    by (simp add: table_ok_def case_prod_beta)
  from this assms(2) have "\<forall>c \<in> set (snd (k, v)). [c] \<notin> fst ` set entries"
    by (rule bspec)
  with assms(3) show ?thesis by simp
qed

lemma table_ok_chars: "table_ok chars"
  by (simp add: table_ok_def chars_def)

lemma table_ok_reordered:
  assumes "distinct entries" and "set entries = set chars"
  shows "table_ok entries" and "subst_of entries = subst_of chars"
proof -
  have dc: "distinct (map fst chars)"
    using table_ok_chars by (simp add: table_ok_def)
  have "length entries = card (set chars)"
    using assms distinct_card by fastforce
  also have "\<dots> = length chars"
    by (rule distinct_card) (use dc in \<open>auto simp: distinct_map\<close>)
  finally have len: "length entries = length chars" .
  have "card (set (map fst entries)) = card (set (map fst chars))"
    using assms(2) by simp
  also have "\<dots> = length (map fst chars)"
    by (rule distinct_card [OF dc])
  finally have "card (set (map fst entries)) = length (map fst entries)"
    using len by simp
  then have de: "distinct (map fst entries)"
    by (rule card_distinct)
  then show "table_ok entries"
    using table_ok_chars assms(2) by (simp add: table_ok_def)
  have "map_of entries = map_of chars"
    using de dc assms(2) by (simp add: map_of_inject_set)
  then show "subst_of entries = subst_of chars"
    by (simp add: subst_of_def fun_eq_iff)
qed

lemma subst_of_fixed:
  assumes "table_ok entries" and "x \<in> set (subst_of entries c)"
  shows "subst_of entries x = [x]"
proof (cases "map_of entries [c]")
  case None
  with assms(2) have "x = c" by (simp add: subst_of_def)
  with None show ?thesis by (simp add: subst_of_def)
next
  case (Some v)
  with assms(2) have "x \<in> set v" by (simp add: subst_of_def)
  moreover from Some have "([c], v) \<in> set entries" by (rule map_of_SomeD)
  ultimately have "[x] \<notin> fst ` set entries"
    by (rule table_ok_fresh [OF assms(1), rotated])
  then have "map_of entries [x] = None"
    by (simp add: map_of_eq_None_iff)
  then show ?thesis by (simp add: subst_of_def)
qed

lemma subst_of_idem:
  assumes "table_ok entries"
  shows "concat (map (subst_of entries) (concat (map (subst_of entries) s))) = concat (map (subst_of entries) s)"
proof -
  have "concat (map (subst_of entries) v) = v" if "\<forall>x \<in> set v. subst_of entries x = [x]" for v
    using that by (induction v) auto
  then have "concat (map (subst_of entries) (subst_of entries c)) = subst_of entries c" for c
    using subst_of_fixed [OF assms] by blast
  then show ?thesis
    by (induction s) auto
qed

lemma replaceChars_in_any_order:
  assumes "distinct entries" and "set entries = set chars"
  shows "replaceChars_in entries s = replaceChars s"
  using table_ok_reordered [OF assms] table_ok_chars
  by (simp add: replaceChars_def replaceChars_in_subst)

lemma replaceChars_subst: "replaceChars s = concat (map (subst_of chars) s)"
  by (simp add: replaceChars_def replaceChars_in_subst table_ok_chars)


text \<open>
  C9. Sanitizing is idempotent: whatever the orders in which the two runs of the loop
  visit the table, the second run changes nothing. And no byte of a replacement is
  itself a key of the table.
\<close>

theorem replaceChars_idempotent:
  assumes "distinct o1" and "set o1 = set chars" and "distinct o2" and "set o2 = set chars"
  shows "replaceChars_in o2 (replaceChars_in o1 s) = replaceChars_in o1 s
    \<and> (\<forall>(k, v) \<in> set chars. \<forall>c \<in> set v. [c] \<notin> fst ` set chars)"
proof -
  have "replaceChars (replaceChars s) = replaceChars s"
    by (simp add: replaceChars_subst subst_of_idem table_ok_chars)
  moreover have "\<forall>(k, v) \<in> set chars. \<forall>c \<in> set v. [c] \<notin> fst ` set chars"
    using table_ok_fresh [OF table_ok_chars] by blast
  ultimately show ?thesis
    using assms by (simp add: replaceChars_in_any_order)
qed

theorem replaceChars_idempotent_witness:
  "distinct chars \<and> distinct (rev chars) \<and> set (rev chars) = set chars
   \<and> replaceChars_in chars ''a?b:/[c]'' = ''a'' @ [CHR 0xC2, CHR 0xBF] @ ''b;(c)''
   \<and> replaceChars_in (rev chars) (replaceChars_in chars ''a?b:/[c]'') = replaceChars_in chars ''a?b:/[c]''"
proof -
  have d: "distinct chars" by (simp add: chars_def)
  have d': "distinct (rev chars)" using d by simp
  have s: "set (rev chars) = set chars" by simp
  have v: "replaceChars_in chars ''a?b:/[c]'' = ''a'' @ [CHR 0xC2, CHR 0xBF] @ ''b;(c)''"
    by (simp add: replaceChars_in_subst table_ok_chars) (simp add: subst_of_def chars_def)
  show ?thesis
    using replaceChars_idempotent [OF d refl d' s, of "''a?b:/[c]''"] d d' s v by simp
qed

section \<open>The subfolder\<close>

lemma HasPrefix_single: "HasPrefix s [c] = (s \<noteq> [] \<and> hd s = c)"
  by (cases s) (auto simp: HasPrefix_def)

lemma Split_from_single:
  "\<exists>rest. Split_from cur s [sep] = (cur @ takeWhile (\<lambda>c. c \<noteq> sep) s) # rest"
proof (induction s arbitrary: cur)
  case Nil
  show ?case by (subst Split_from.simps) simp
next
  case (Cons c s)
  show ?case
  proof (cases "c = sep")
    case True
    then show ?thesis
      by (subst Split_from.simps) (simp add: HasPrefix_single)
  next
    case False
    from Cons.IH [of "cur @ [c]"] False show ?thesis
      by (subst Split_from.simps) (simp add: HasPrefix_single)
  qed
qed

lemma Split_first:
  "length (Split s [sep]) > 0 \<and> Split s [sep] ! 0 = takeWhile (\<lambda>c. c \<noteq> sep) s"
  using Split_from_single [of "[]" s sep] by (auto simp: Split_def)

lemma of_char_nat_less: "(of_char b :: nat) < 256"
  by (cases b) simp

lemma ToUpper_byte_ascii:
  assumes "(of_char b :: nat) < 0x80"
  shows "ToUpper_byte b =
    [if 0x61 \<le> (of_char b :: nat) \<and> (of_char b :: nat) \<le> 0x7A then char_of ((of_char b :: nat) - 32) else b]"
  using assms by (auto simp: ToUpper_byte_def unicode_ToUpper_def utf8_def)

lemma unicode_ToUpper_high:
  "0x80 \<le> r \<Longrightarrow> r < 256 \<Longrightarrow> 0x80 \<le> unicode_ToUpper r \<and> unicode_ToUpper r < 0x800"
  by (auto simp: unicode_ToUpper_def)

lemma ToUpper_byte_high:
  assumes "0x80 \<le> (of_char b :: nat)"
  shows "\<not> MatchString_A_Z (ToUpper_byte b)"
proof -
  let ?r = "of_char b :: nat"
  let ?u = "unicode_ToUpper ?r"
  have r: "?r < 256" by (rule of_char_nat_less)
  have u: "0x80 \<le> ?u \<and> ?u < 0x800"
    using assms r by (rule unicode_ToUpper_high)
  then have "ToUpper_byte b = [char_of (0xC0 + ?u div 64), char_of (0x80 + ?u mod 64)]"
    by (simp add: ToUpper_byte_def utf8_def)
  moreover have "0xC0 + ?u div 64 < 256" "0xC0 \<le> 0xC0 + ?u div 64"
    using u by auto
  moreover have "0x80 + ?u mod 64 < 256" "0x80 \<le> 0x80 + ?u mod 64"
    by auto
  ultimately show ?thesis
    by (simp add: MatchString_A_Z_def of_char_of)
qed


lemma Replace_whole: "old \<noteq> [] \<Longrightarrow> Replace old old new 1 = new"
  by (subst Replace.simps) (simp add: HasPrefix_def Replace.simps)

lemma Replace_keeps_head:
  "\<not> HasPrefix s old \<Longrightarrow> s \<noteq> [] \<Longrightarrow> \<exists>r. Replace s old new n = hd s # r"
  by (cases s) (subst Replace.simps, simp)+

text \<open>
  C10. \<open>getSubFolder\<close> indexes the first byte of the first segment of the file name with
  the first \<open>source/\<close> taken out. When that segment is empty the index is out of range:
  so for the file name \<open>source/\<close>, and for a file name that starts with the separator
  but not with \<open>source/\<close>. Otherwise the result is one capital letter or \<open>#\<close>. It is
  never the default subfolder.
\<close>

theorem getSubFolder_first_segment:
  "(let seg = takeWhile (\<lambda>c. c \<noteq> PathSeparator) (Replace fileName (source @ [PathSeparator]) [] 1)
    in (seg = [] \<longrightarrow> getSubFolder fileName source = Inl IndexOutOfRange)
     \<and> (seg \<noteq> [] \<longrightarrow>
          (\<exists>c. getSubFolder fileName source = Inr [c] \<and> (is_capital c \<or> [c] = numericSubfolder))))
   \<and> getSubFolder fileName source \<noteq> Inr defaultSubfolder
   \<and> getSubFolder (source @ [PathSeparator]) source = Inl IndexOutOfRange
   \<and> (\<not> HasPrefix fileName (source @ [PathSeparator]) \<and> HasPrefix fileName [PathSeparator]
        \<longrightarrow> getSubFolder fileName source = Inl IndexOutOfRange)"
proof -
  have char: "getSubFolder f src =
      (case takeWhile (\<lambda>c. c \<noteq> PathSeparator) (Replace f (src @ [PathSeparator]) [] 1) of
         [] \<Rightarrow> Inl IndexOutOfRange
       | b # _ \<Rightarrow> Inr (if MatchString_A_Z (ToUpper_byte b) then ToUpper_byte b else numericSubfolder))"
    for f src
    using Split_first [of "Replace f (src @ [PathSeparator]) [] 1" PathSeparator]
    by (simp add: getSubFolder_def byte_at_def Let_def split: list.splits)
  have up: "MatchString_A_Z (ToUpper_byte b) \<Longrightarrow> \<exists>c. ToUpper_byte b = [c] \<and> is_capital c" for b
  proof (cases "(of_char b :: nat) < 0x80")
    case True
    assume "MatchString_A_Z (ToUpper_byte b)"
    then show ?thesis
      by (simp add: ToUpper_byte_ascii [OF True] MatchString_A_Z_def is_capital_def)
  next
    case False
    assume "MatchString_A_Z (ToUpper_byte b)"
    with False ToUpper_byte_high [of b] show ?thesis by simp
  qed
  have res: "getSubFolder f src = Inl IndexOutOfRange
      \<or> (\<exists>c. getSubFolder f src = Inr [c] \<and> (is_capital c \<or> [c] = numericSubfolder))" for f src
    using up by (auto simp: char numericSubfolder_def split: list.splits)
  have A: "takeWhile (\<lambda>c. c \<noteq> PathSeparator) (Replace fileName (source @ [PathSeparator]) [] 1) = []
      \<longrightarrow> getSubFolder fileName source = Inl IndexOutOfRange"
    by (simp add: char)
  have B: "takeWhile (\<lambda>c. c \<noteq> PathSeparator) (Replace fileName (source @ [PathSeparator]) [] 1) \<noteq> []
      \<longrightarrow> (\<exists>c. getSubFolder fileName source = Inr [c] \<and> (is_capital c \<or> [c] = numericSubfolder))"
    using res [of fileName source] by (auto simp: char numericSubfolder_def split: list.splits)
  have C: "getSubFolder fileName source \<noteq> Inr defaultSubfolder"
    using res [of fileName source] by (auto simp: defaultSubfolder_def numericSubfolder_def)
  have D: "getSubFolder (source @ [PathSeparator]) source = Inl IndexOutOfRange"
    by (simp add: char Replace_whole)
  have E: "getSubFolder fileName source = Inl IndexOutOfRange"
    if "\<not> HasPrefix fileName (source @ [PathSeparator])" and "HasPrefix fileName [PathSeparator]"
  proof -
    from that(2) have ne: "fileName \<noteq> []" and hd: "hd fileName = PathSeparator"
      by (simp_all add: HasPrefix_single)
    from Replace_keeps_head [OF that(1) ne] hd obtain r
      where "Replace fileName (source @ [PathSeparator]) [] 1 = PathSeparator # r"
      by auto
    then show ?thesis by (simp add: char)
  qed
  show ?thesis
    using A B C D E by (simp add: Let_def)
qed


theorem getSubFolder_first_segment_witness:
  "getSubFolder ''/music/abba/song.mp3'' ''/music'' = Inr ''A''
   \<and> getSubFolder ''/music/123/song.mp3'' ''/music'' = Inr ''#''
   \<and> getSubFolder ''/music/'' ''/music'' = Inl IndexOutOfRange
   \<and> \<not> HasPrefix ''/other/x.mp3'' (''/music'' @ [PathSeparator])
   \<and> HasPrefix ''/other/x.mp3'' [PathSeparator]
   \<and> getSubFolder ''/other/x.mp3'' ''/music'' = Inl IndexOutOfRange"
proof -
  have a: "getSubFolder ''/music/abba/song.mp3'' ''/music'' = Inr ''A''"
    by code_simp
  have b: "getSubFolder ''/music/123/song.mp3'' ''/music'' = Inr ''#''"
    by code_simp
  have seg: "takeWhile (\<lambda>c. c \<noteq> PathSeparator)
      (Replace ''/music/abba/song.mp3'' (''/music'' @ [PathSeparator]) [] 1) \<noteq> []"
    by code_simp
  have h1: "\<not> HasPrefix ''/other/x.mp3'' (''/music'' @ [PathSeparator])"
    by code_simp
  have h2: "HasPrefix ''/other/x.mp3'' [PathSeparator]"
    by code_simp
  note t = getSubFolder_first_segment [of "''/other/x.mp3''" "''/music''"]
  note u = getSubFolder_first_segment [of "''/music/abba/song.mp3''" "''/music''"]
  from u seg have "\<exists>c. getSubFolder ''/music/abba/song.mp3'' ''/music'' = Inr [c]"
    by (auto simp: Let_def)
  moreover from t h1 h2 have "getSubFolder ''/other/x.mp3'' ''/music'' = Inl IndexOutOfRange"
    by blast
  moreover from t have "getSubFolder ''/music/'' ''/music'' = Inl IndexOutOfRange"
    by (simp add: PathSeparator_def)
  ultimately show ?thesis
    using a b h1 h2 by simp
qed

section \<open>File names and filters\<close>

lemma replaceChars_plain:
  assumes "\<forall>c \<in> set s. [c] \<notin> fst ` set chars"
  shows "replaceChars s = s"
proof -
  have "map_of chars [c] = None" if "c \<in> set s" for c
    using that assms by (simp add: map_of_eq_None_iff)
  then have "\<forall>c \<in> set s. subst_of chars c = [c]"
    by (simp add: subst_of_def)
  then have "concat (map (subst_of chars) s) = s"
    by (induction s) auto
  then show ?thesis by (simp add: replaceChars_subst)
qed




text \<open>
  C8. A tag with Artist Queen, Album Greatest Hits, Year 1981, track frame 5, Title
  Bohemian Rhapsody and no disk frame, with the extension \<open>.mp3\<close>, gets the file name
  \<open>Queen - Greatest Hits (1981) - 05 - Bohemian Rhapsody.mp3\<close> and no error: the
  one-byte track is padded to \<open>05\<close>.
\<close>

theorem getFileName_Queen:
  assumes "Artist tag = ''Queen''" and "Album tag = ''Greatest Hits''" and "Year tag = ''1981''"
    and "Title tag = ''Bohemian Rhapsody''"
    and "GetTextFrame tag frameIDDisk = []" and "GetTextFrame tag frameIDTrack = ''5''"
  shows "getFileName tag ''.mp3'' =
    (''Queen - Greatest Hits (1981) - 05 - Bohemian Rhapsody.mp3'', None)"
  using assms
  by (simp add: getFileName_def replaceChars_subst subst_of_def chars_def)

theorem getFileName_Queen_witness:
  "getFileName
     \<lparr>Artist = ''Queen'', Album = ''Greatest Hits'', Year = ''1981'', Title = ''Bohemian Rhapsody'',
      GetTextFrame = (\<lambda>frameID. if frameID = ''TRCK'' then ''5'' else [])\<rparr> ''.mp3'' =
   (''Queen - Greatest Hits (1981) - 05 - Bohemian Rhapsody.mp3'', None)"
  using getFileName_Queen
    [of "\<lparr>Artist = ''Queen'', Album = ''Greatest Hits'', Year = ''1981'',
          Title = ''Bohemian Rhapsody'',
          GetTextFrame = (\<lambda>frameID. if frameID = ''TRCK'' then ''5'' else [])\<rparr>"]
  by (simp add: frameIDDisk_def frameIDTrack_def)

text \<open>
  C5. The blacklist wins: for a file whose tag loads and matches a non-empty blacklist,
  \<open>Do\<close> returns the empty path and no error, whatever the whitelist is and whether or
  not the tag matches it.
\<close>

theorem Do_blacklist_wins:
  assumes "loadTag f = Inr tag" and "blackList \<noteq> []" and "Contains blackList tag"
  shows "Do loadTag Contains destination source f whiteList blackList = Inr ([], None)"
  using assms by (simp add: Do_def)

theorem Do_blacklist_wins_witness:
  "Do (\<lambda>f. Inr \<lparr>Artist = ''Queen'', Album = ''Jazz'', Year = ''1978'', Title = ''Mustapha'',
                 GetTextFrame = no_frames\<rparr>)
      (\<lambda>entries tag. Artist tag \<in> set entries)
      ''/dst'' ''/music''
      \<lparr>Name = ''/music/queen/01.mp3'', Info = Some \<lparr>Info_Name = ''01.mp3'', Info_Size = 4096\<rparr>\<rparr>
      [''Queen''] [''Queen''] = Inr ([], None)
   \<and> Do (\<lambda>f. Inr \<lparr>Artist = ''Queen'', Album = ''Jazz'', Year = ''1978'', Title = ''Mustapha'',
                 GetTextFrame = no_frames\<rparr>)
      (\<lambda>entries tag. Artist tag \<in> set entries)
      ''/dst'' ''/music''
      \<lparr>Name = ''/music/queen/01.mp3'', Info = Some \<lparr>Info_Name = ''01.mp3'', Info_Size = 4096\<rparr>\<rparr>
      [''Queen''] [] = Inr (''/dst/Q/Queen - Jazz (1978) - Mustapha.mp3'', None)"
proof -
  have "Do (\<lambda>f. Inr \<lparr>Artist = ''Queen'', Album = ''Jazz'', Year = ''1978'', Title = ''Mustapha'',
                 GetTextFrame = no_frames\<rparr>)
      (\<lambda>entries tag. Artist tag \<in> set entries)
      ''/dst'' ''/music''
      \<lparr>Name = ''/music/queen/01.mp3'', Info = Some \<lparr>Info_Name = ''01.mp3'', Info_Size = 4096\<rparr>\<rparr>
      [''Queen''] [] = Inr (''/dst/Q/Queen - Jazz (1978) - Mustapha.mp3'', None)"
    by code_simp
  then show ?thesis
    using Do_blacklist_wins
      [of "\<lambda>f. Inr \<lparr>Artist = ''Queen'', Album = ''Jazz'', Year = ''1978'', Title = ''Mustapha'',
                 GetTextFrame = no_frames\<rparr>"
          "\<lparr>Name = ''/music/queen/01.mp3'', Info = Some \<lparr>Info_Name = ''01.mp3'', Info_Size = 4096\<rparr>\<rparr>"
          "\<lparr>Artist = ''Queen'', Album = ''Jazz'', Year = ''1978'', Title = ''Mustapha'',
                 GetTextFrame = no_frames\<rparr>"
          "[''Queen'']" "\<lambda>entries tag. Artist tag \<in> set entries" "''/dst''" "''/music''" "[''Queen'']"]
    by simp
qed

section \<open>The runs of the two programs\<close>

lemma ToLower_n [simp]: "ToLower ''n'' = ''n''" "ToLower ''N'' = ''n''" "ToLower [] \<noteq> ''n''"
  by code_simp+

lemma after_copies_Nil: "after_copies w [] = w"
  by (simp add: after_copies_def)

lemma after_copies_Cons:
  "after_copies w (v # fs) = after_copies (w\<lparr>trace := trace w @ [sync_Do_call v]\<rparr>) fs"
  by (simp add: after_copies_def)

lemma map_filter_map: "List.map_filter f (map g xs) = List.map_filter (\<lambda>x. f (g x)) xs"
  by (induction xs) (simp_all add: List.map_filter_simps split: option.splits)

lemma copy_errors_Cons:
  "copy_errors env (v # files) w =
     (case sync_Do env v w of Some e \<Rightarrow> [e] | None \<Rightarrow> [])
     @ copy_errors env files (w\<lparr>trace := trace w @ [sync_Do_call v]\<rparr>)"
proof -
  have upt: "[0..<length (v # files)] = 0 # map Suc [0..<length files]"
    by (simp add: upt_conv_Cons map_Suc_upt del: upt_Suc)
  show ?thesis
    unfolding copy_errors_def upt
    by (simp add: List.map_filter_simps map_filter_map after_copies_Nil after_copies_Cons
        split: option.splits)
qed

lemma snycFiles_loop_result:
  "snycFiles_loop env files errs w = (errs @ copy_errors env files w, after_copies w files)"
proof (induction files arbitrary: errs w)
  case Nil
  show ?case by (simp add: copy_errors_def List.map_filter_def after_copies_Nil)
next
  case (Cons v files)
  show ?case
    by (simp add: Cons.IH copy_errors_Cons after_copies_Cons Let_def split: option.splits)
qed

text \<open>
  C6. When the answer to the prompt is not \<open>n\<close>, \<open>snycFiles\<close> calls \<open>sync.Do\<close> for every
  entry of the plan, in order, whatever the copies before returned, and returns the
  errors of the copies that failed, one each, in order. For a plan of three files whose
  second copy fails, the third is still attempted and the list has one entry.
\<close>

theorem snycFiles_attempts_every_entry:
  assumes "ToLower (prompt_Input env ''Start Sync? [Y/n] '') \<noteq> ''n''"
  shows "snycFiles env files w = (copy_errors env files w, after_copies w files)
    \<and> trace (snd (snycFiles env files w)) = trace w @ map sync_Do_call files
    \<and> length (fst (snycFiles env files w)) =
        length (filter (\<lambda>i. sync_Do env (files ! i) (after_copies w (take i files)) \<noteq> None)
          [0..<length files])"
proof -
  have r: "snycFiles env files w = (copy_errors env files w, after_copies w files)"
    using assms by (simp add: snycFiles_def snycFiles_loop_result)
  have "length (copy_errors env files w) =
      length (filter (\<lambda>i. sync_Do env (files ! i) (after_copies w (take i files)) \<noteq> None)
        [0..<length files])"
    by (simp add: copy_errors_def List.map_filter_def)
  with r show ?thesis by (simp add: after_copies_def)
qed

theorem snycFiles_attempts_every_entry_witness:
  "ToLower (prompt_Input (example_env [] []
       (\<lambda>f. if f = planned ''b.mp3'' 300 then Some (External ''copy failed'') else None) 1000)
       ''Start Sync? [Y/n] '') \<noteq> ''n''
   \<and> snycFiles (example_env [] []
       (\<lambda>f. if f = planned ''b.mp3'' 300 then Some (External ''copy failed'') else None) 1000)
       [planned ''a.mp3'' 400, planned ''b.mp3'' 300, planned ''c.mp3'' 200] w0
     = ([External ''copy failed''],
        w0\<lparr>trace := [sync_Do_call (planned ''a.mp3'' 400), sync_Do_call (planned ''b.mp3'' 300),
                      sync_Do_call (planned ''c.mp3'' 200)]\<rparr>)"
proof -
  let ?env = "example_env [] []
       (\<lambda>f. if f = planned ''b.mp3'' 300 then Some (External ''copy failed'') else None) 1000"
  let ?plan = "[planned ''a.mp3'' 400, planned ''b.mp3'' 300, planned ''c.mp3'' 200]"
  have h: "ToLower (prompt_Input ?env ''Start Sync? [Y/n] '') \<noteq> ''n''"
    by (simp add: example_env_def)
  have ne: "planned ''a.mp3'' 400 \<noteq> planned ''b.mp3'' 300" "planned ''c.mp3'' 200 \<noteq> planned ''b.mp3'' 300"
    by (simp_all add: planned_def)
  have c: "copy_errors ?env ?plan w0 = [External ''copy failed'']"
    by (simp add: copy_errors_Cons copy_errors_def List.map_filter_simps example_env_def ne)
  have a: "after_copies w0 ?plan = w0\<lparr>trace := [sync_Do_call (planned ''a.mp3'' 400),
      sync_Do_call (planned ''b.mp3'' 300), sync_Do_call (planned ''c.mp3'' 200)]\<rparr>"
    by (simp add: after_copies_def w0_def)
  from snycFiles_attempts_every_entry [OF h, of ?plan w0] h show ?thesis
    by (simp add: c a)
qed

lemma example_diff:
  "diff (example_env answer [song name bytes] copy free) [song name bytes] ''/dst'' ''/music''
     = ([planned name bytes], [])"
  by (simp add: diff_def example_env_def song_def planned_def IsInSync_def Let_def)

lemma SpaceNeeded_planned: "SpaceNeeded [planned name bytes] = bytes"
  by (simp add: SpaceNeeded_def planned_def song_def)

lemma logErrors_loop_trace: "trace (snd (logErrors_loop env h errs w)) = trace w"
  by (induction errs arbitrary: w) (auto simp: WriteString_def split: option.splits)

lemma logErrors_trace: "trace (snd (logErrors env errs w)) = trace w"
proof -
  have "trace (snd (OpenFile env name flag perm w')) = trace w'" for name flag perm w'
    by (simp add: OpenFile_def split: option.splits)
  moreover have "snd (OpenFile env name flag perm w') = w''" if "OpenFile env name flag perm w' = (r, w'')"
    for name flag perm w' r w''
    using that by simp
  ultimately have o: "trace w'' = trace w'" if "OpenFile env name flag perm w' = (r, w'')"
    for name flag perm w' r w''
    using that by metis
  have l: "trace w'' = trace w'" if "logErrors_loop env h errs w' = (r, w'')" for h w' r w''
    using logErrors_loop_trace [of env h errs w'] that by simp
  show ?thesis
    by (auto simp: logErrors_def Let_def split: prod.splits sum.splits dest!: o l)
qed

lemma showAndLogErrors_trace: "trace (snd (showAndLogErrors env errs w)) = trace w"
  using logErrors_trace [of env errs w]
  by (auto simp: showAndLogErrors_def showErrors_def Let_def split: prod.splits option.splits)

lemma do_answer_n:
  assumes "ToLower (prompt_Input env ''Start Sync? [Y/n] '') = ''n''"
  shows "fst (do env conf w) \<noteq> None \<and> trace (snd (do env conf w)) = trace w"
proof -
  have t: "trace w' = trace w" if "showAndLogErrors env errs w = (r, w')" for errs r w'
    using showAndLogErrors_trace [of env errs w] that by simp
  show ?thesis
    using assms
    by (auto simp: do_def Let_def listDiff_def split: sum.splits prod.splits option.splits dest: t)
qed

lemma do_answer_n_reached:
  assumes "ToLower (prompt_Input env ''Start Sync? [Y/n] '') = ''n''"
    and "readFileList_sends env (cfg_Source conf) True = Inr sourceFiles"
    and "readFileList_sends env (cfg_Destination conf) False = Inr destinationFiles"
    and "transform_Do_batch env sourceFiles (cfg_Destination conf) (cfg_Source conf) = (transformed, [])"
    and "CalculateDiskSpace env (diff_plan env transformed destinationFiles) (cfg_Destination conf) = Inr ds"
  shows "do env conf w = (Some errAbortedByUser, w)"
  using assms by (simp add: do_def Let_def listDiff_def)

lemma do_disk_error:
  assumes "readFileList_sends env (cfg_Source conf) True = Inr sourceFiles"
    and "readFileList_sends env (cfg_Destination conf) False = Inr destinationFiles"
    and "transform_Do_batch env sourceFiles (cfg_Destination conf) (cfg_Source conf) = (transformed, errs)"
    and "CalculateDiskSpace env (diff_plan env transformed destinationFiles) (cfg_Destination conf) = Inl err"
  shows "fst (do env conf w) \<noteq> None \<and> trace (snd (do env conf w)) = trace w"
proof -
  have t: "trace w' = trace w" if "showAndLogErrors env errs w = (r, w')" for r w'
    using showAndLogErrors_trace [of env errs w] that by simp
  show ?thesis
    using assms
    by (auto simp: do_def Let_def listDiff_def split: prod.splits option.splits dest: t)
qed

text \<open>
  C1, on \<open>unnamed/part_000\<close>. With the answer \<open>n\<close>, \<open>snycFiles\<close> returns the one-entry
  list holding \<open>errAbortedByUser\<close> and copies nothing; \<open>do\<close> only looks at lists of more
  than one entry, so the run ends with no error at all. (On \<open>main.go\<close> the prompt is in
  \<open>do\<close> itself and the abort is returned: lemmas \<open>do_answer_n\<close> and
  \<open>do_answer_n_reached\<close> above.)
\<close>

theorem do_part_000_loses_abort:
  "snycFiles (example_env ''n'' [song ''a.mp3'' 400] (\<lambda>f. None) 1000) [planned ''a.mp3'' 400] w0
     = ([errAbortedByUser], w0)
   \<and> do_part_000 (example_env ''n'' [song ''a.mp3'' 400] (\<lambda>f. None) 1000) conf0 w0 = (None, w0)"
proof -
  let ?env = "example_env ''n'' [song ''a.mp3'' 400] (\<lambda>f. None) 1000"
  have s: "snycFiles ?env [planned ''a.mp3'' 400] w0 = ([errAbortedByUser], w0)"
    by (simp add: snycFiles_def example_env_def)
  have d: "diskSpace ?env [planned ''a.mp3'' 400] ''/dst'' = None"
    by (simp add: diskSpace_def example_env_def SpaceNeeded_planned Let_def)
  have e: "FileOrPathExists ?env ''/music''" "FileOrPathExists ?env ''/dst''"
    "readFileList ?env ''/music'' = Inr [song ''a.mp3'' 400]"
    by (simp_all add: example_env_def readFileList_def)
  have "do_part_000 ?env conf0 w0 = (None, w0)"
    by (simp add: do_part_000_def conf0_def e example_diff listDiff_def d s)
  with s show ?thesis by simp
qed

lemma do_copy_errors_logged:
  assumes "readFileList_sends env (cfg_Source conf) True = Inr sourceFiles"
    and "readFileList_sends env (cfg_Destination conf) False = Inr destinationFiles"
    and "transform_Do_batch env sourceFiles (cfg_Destination conf) (cfg_Source conf) = (transformed, [])"
    and "CalculateDiskSpace env (diff_plan env transformed destinationFiles) (cfg_Destination conf) = Inr ds"
    and "ToLower (prompt_Input env ''Start Sync? [Y/n] '') \<noteq> ''n''"
    and "filesync_Do env (diff_plan env transformed destinationFiles) w = errs"
    and "length errs > 1" and "errs ! 0 \<noteq> errAbortedByUser"
    and "logErrors env errs
           (w\<lparr>trace := trace w @ [filesync_Do_call (diff_plan env transformed destinationFiles)]\<rparr>)
         = ((logFileName, logged), w')"
  shows "do env conf w = (Some (case logged of None \<Rightarrow> errSeeLog | Some err \<Rightarrow> err), w')"
  using assms
  by (cases logged) (simp_all add: do_def Let_def listDiff_def is_errAbortedByUser_def)

text \<open>
  C2, on both programs. When the copy of the only file of the plan fails and nothing
  else does, the executor returns a list with that one error; \<open>do\<close> only looks at lists
  of more than one entry, so no log is written and the run ends with no error. (Two or
  more copy errors do reach \<open>logErrors\<close>, and the run of \<open>main.go\<close> ends with its error or
  with \<open>see log for more details\<close>: the lemma above.)
\<close>

theorem do_one_copy_error_reports_success:
  "do_part_000 (example_env [] [song ''a.mp3'' 400] (\<lambda>f. Some (External ''copy failed'')) 1000)
      conf0 w0
     = (None, w0\<lparr>trace := [sync_Do_call (planned ''a.mp3'' 400)]\<rparr>)
   \<and> do (example_env_main [] [External ''copy failed'']) conf0 w0
     = (None, w0\<lparr>trace := [filesync_Do_call [planned ''a.mp3'' 400]]\<rparr>)"
proof -
  let ?env = "example_env [] [song ''a.mp3'' 400] (\<lambda>f. Some (External ''copy failed'')) 1000"
  have s: "snycFiles ?env [planned ''a.mp3'' 400] w0
      = ([External ''copy failed''], w0\<lparr>trace := [sync_Do_call (planned ''a.mp3'' 400)]\<rparr>)"
    by (simp add: snycFiles_def example_env_def w0_def)
  have d: "diskSpace ?env [planned ''a.mp3'' 400] ''/dst'' = None"
    by (simp add: diskSpace_def example_env_def SpaceNeeded_planned Let_def)
  have e: "FileOrPathExists ?env ''/music''" "FileOrPathExists ?env ''/dst''"
    "readFileList ?env ''/music'' = Inr [song ''a.mp3'' 400]"
    by (simp_all add: example_env_def readFileList_def)
  have old: "do_part_000 ?env conf0 w0 = (None, w0\<lparr>trace := [sync_Do_call (planned ''a.mp3'' 400)]\<rparr>)"
    by (simp add: do_part_000_def conf0_def e example_diff listDiff_def d s)
  have new: "do (example_env_main [] [External ''copy failed'']) conf0 w0
      = (None, w0\<lparr>trace := [filesync_Do_call [planned ''a.mp3'' 400]]\<rparr>)"
    by (simp add: do_def conf0_def example_env_main_def listDiff_def w0_def)
  from old new show ?thesis by simp
qed

text \<open>
  C4. With \<open>free\<close> the free space of the destination, \<open>diskSpace\<close> computes
  \<open>left = free - needed\<close> in 64-bit arithmetic and passes the plan exactly when
  \<open>left \<ge> 1\<close>; otherwise its error carries \<open>needed - free\<close>. With 1000 free, 1001 needed
  fails (left is -1), 1000 fails (left is 0), 999 passes (left is 1). When it fails, the
  run of \<open>unnamed/part_000\<close> ends with an error and no copy is attempted; with no
  error from the analysis before, the error is this one.
\<close>

theorem diskSpace_admission:
  assumes "GetInfo_Free env (cfg_Destination conf) = Inr free"
  shows "diskSpace env files (cfg_Destination conf) =
      (if 1 \<le> sint (free - SpaceNeeded files) then None
       else Some (errNotEnoughSpace (SpaceNeeded files - free)))
    \<and> (free = 1000 \<and> SpaceNeeded files = 1001 \<longrightarrow>
         sint (free - SpaceNeeded files) = - 1
         \<and> diskSpace env files (cfg_Destination conf) = Some (errNotEnoughSpace 1))
    \<and> (free = 1000 \<and> SpaceNeeded files = 1000 \<longrightarrow>
         sint (free - SpaceNeeded files) = 0
         \<and> diskSpace env files (cfg_Destination conf) = Some (errNotEnoughSpace 0))
    \<and> (free = 1000 \<and> SpaceNeeded files = 999 \<longrightarrow>
         sint (free - SpaceNeeded files) = 1
         \<and> diskSpace env files (cfg_Destination conf) = None)
    \<and> (FileOrPathExists env (cfg_Source conf) \<and> FileOrPathExists env (cfg_Destination conf)
        \<and> readFileList env (cfg_Source conf) = Inr fileList
        \<and> diff env fileList (cfg_Destination conf) (cfg_Source conf) = (files, errs)
        \<and> sint (free - SpaceNeeded files) < 1 \<longrightarrow>
         fst (do_part_000 env conf w) \<noteq> None
         \<and> trace (snd (do_part_000 env conf w)) = trace w
         \<and> (errs = [] \<longrightarrow>
              do_part_000 env conf w = (Some (errNotEnoughSpace (SpaceNeeded files - free)), w)))"
proof -
  have neg: "(free - SpaceNeeded files) * (- 1) = SpaceNeeded files - free"
    by simp
  have ds: "diskSpace env files (cfg_Destination conf) =
      (if 1 \<le> sint (free - SpaceNeeded files) then None
       else Some (errNotEnoughSpace (SpaceNeeded files - free)))"
    using assms by (simp add: diskSpace_def Let_def neg del: mult_minus1_right)
  have run: "fst (do_part_000 env conf w) \<noteq> None
         \<and> trace (snd (do_part_000 env conf w)) = trace w
         \<and> (errs = [] \<longrightarrow>
              do_part_000 env conf w = (Some (errNotEnoughSpace (SpaceNeeded files - free)), w))"
    if e: "FileOrPathExists env (cfg_Source conf)" "FileOrPathExists env (cfg_Destination conf)"
      and r: "readFileList env (cfg_Source conf) = Inr fileList"
      and d: "diff env fileList (cfg_Destination conf) (cfg_Source conf) = (files, errs)"
      and short: "sint (free - SpaceNeeded files) < 1"
  proof -
    have fail: "diskSpace env files (cfg_Destination conf)
        = Some (errNotEnoughSpace (SpaceNeeded files - free))"
      using ds short by simp
    have t: "trace w' = trace w" if "showAndLogErrors env errs w = (x, w')" for x w'
      using showAndLogErrors_trace [of env errs w] that by simp
    show ?thesis
      by (auto simp: do_part_000_def e r d fail listDiff_def split: prod.splits option.splits dest: t)
  qed
  show ?thesis
    using ds run by simp
qed

theorem diskSpace_admission_witness:
  "diskSpace (example_env [] [song ''a.mp3'' 1001] (\<lambda>f. None) 1000) [planned ''a.mp3'' 1001] ''/dst''
     = Some (errNotEnoughSpace 1)
   \<and> Error (errNotEnoughSpace 1) = ''not enough free disk space, need 1 more bytes''
   \<and> diskSpace (example_env [] [song ''a.mp3'' 1000] (\<lambda>f. None) 1000) [planned ''a.mp3'' 1000] ''/dst''
     = Some (errNotEnoughSpace 0)
   \<and> diskSpace (example_env [] [song ''a.mp3'' 999] (\<lambda>f. None) 1000) [planned ''a.mp3'' 999] ''/dst''
     = None
   \<and> do_part_000 (example_env [] [song ''a.mp3'' 1001] (\<lambda>f. None) 1000) conf0 w0
     = (Some (errNotEnoughSpace 1), w0)"
proof -
  have g: "GetInfo_Free (example_env [] fl (\<lambda>f. None) 1000) (cfg_Destination conf0) = Inr 1000" for fl
    by (simp add: example_env_def)
  have c: "cfg_Destination conf0 = ''/dst''" "cfg_Source conf0 = ''/music''"
    by (simp_all add: conf0_def)
  have e: "FileOrPathExists (example_env [] fl (\<lambda>f. None) 1000) ''/music''"
    "FileOrPathExists (example_env [] fl (\<lambda>f. None) 1000) ''/dst''"
    "readFileList (example_env [] fl (\<lambda>f. None) 1000) ''/music'' = Inr fl" for fl
    by (simp_all add: example_env_def readFileList_def)
  have m: "Error (errNotEnoughSpace 1) = ''not enough free disk space, need 1 more bytes''"
    by code_simp
  note a = diskSpace_admission [OF g, of "[song ''a.mp3'' 1001]" "[planned ''a.mp3'' 1001]"
      "[song ''a.mp3'' 1001]" "[]" w0]
  note b = diskSpace_admission [OF g, of "[song ''a.mp3'' 1000]" "[planned ''a.mp3'' 1000]"]
  note d = diskSpace_admission [OF g, of "[song ''a.mp3'' 999]" "[planned ''a.mp3'' 999]"]
  from a have "diskSpace (example_env [] [song ''a.mp3'' 1001] (\<lambda>f. None) 1000)
      [planned ''a.mp3'' 1001] ''/dst'' = Some (errNotEnoughSpace 1)"
    by (simp add: c SpaceNeeded_planned)
  moreover from a have "do_part_000 (example_env [] [song ''a.mp3'' 1001] (\<lambda>f. None) 1000) conf0 w0
      = (Some (errNotEnoughSpace 1), w0)"
    by (simp add: c SpaceNeeded_planned e example_diff)
  moreover from b have "diskSpace (example_env [] [song ''a.mp3'' 1000] (\<lambda>f. None) 1000)
      [planned ''a.mp3'' 1000] ''/dst'' = Some (errNotEnoughSpace 0)"
    by (simp add: c SpaceNeeded_planned)
  moreover from d have "diskSpace (example_env [] [song ''a.mp3'' 999] (\<lambda>f. None) 1000)
      [planned ''a.mp3'' 999] ''/dst'' = None"
    by (simp add: c SpaceNeeded_planned)
  ultimately show ?thesis using m by simp
qed

lemma digit_char: "d < 10 \<Longrightarrow> (of_char (char_of (48 + d)) :: nat) = 48 + d"
  by (simp add: of_char_of)

lemma decimal_digits:
  "c \<in> set (decimal n) \<Longrightarrow> 48 \<le> (of_char c :: nat) \<and> (of_char c :: nat) \<le> 57"
proof (induction n rule: decimal.induct)
  case (1 n)
  show ?case
  proof (cases "n < 10")
    case True
    with "1.prems" have "c = char_of (48 + n)"
      by (simp add: decimal.simps [of n])
    with True show ?thesis by (simp add: digit_char)
  next
    case False
    with "1.prems" have "c \<in> set (decimal (n div 10)) \<or> c = char_of (48 + n mod 10)"
      by (auto simp add: decimal.simps [of n])
    then show ?thesis
      using "1.IH" [OF False] by (auto simp: digit_char)
  qed
qed

lemma appendInt_digits:
  "c \<in> set (appendInt x width) \<Longrightarrow> 48 \<le> (of_char c :: nat) \<and> (of_char c :: nat) \<le> 57"
  by (auto simp: appendInt_def dest: decimal_digits)

lemma Format_logFileNameFormat:
  "Format t logFileNameFormat =
     appendInt (year t) 4 @ appendInt (month t) 2 @ appendInt (day t) 2 @ ''-''
     @ appendInt (hour t) 2 @ appendInt (minute t) 2 @ appendInt (second t) 2"
  by (simp add: logFileNameFormat_def Format.simps HasPrefix_def)

lemma Format_no_separator: "PathSeparator \<notin> set (Format t logFileNameFormat)"
  by (auto simp: Format_logFileNameFormat PathSeparator_def dest!: appendInt_digits)

lemma Split_from_no_sep: "sep \<notin> set a \<Longrightarrow> Split_from cur a [sep] = [cur @ a]"
proof (induction a arbitrary: cur)
  case Nil
  show ?case by (simp add: Split_from.simps)
next
  case (Cons c a)
  then show ?case
    by (subst Split_from.simps) (auto simp: HasPrefix_single)
qed

lemma Split_from_sep:
  "sep \<notin> set a \<Longrightarrow> Split_from cur (a @ sep # rest) [sep] = (cur @ a) # Split_from [] rest [sep]"
proof (induction a arbitrary: cur)
  case Nil
  show ?case by (subst Split_from.simps) (simp add: HasPrefix_single)
next
  case (Cons c a)
  then show ?case
    by (subst Split_from.simps) (auto simp: HasPrefix_single)
qed

lemma Join_logs:
  assumes "PathSeparator \<notin> set x" and "x \<noteq> []" and "x \<noteq> ''.''" and "x \<noteq> ''..''"
  shows "Join [''.'', logPath, x] = ''logs/'' @ x"
proof -
  have s1: "Split_from [] (''.'' @ PathSeparator # (''logs'' @ PathSeparator # x)) [PathSeparator]
      = ''.'' # Split_from [] (''logs'' @ PathSeparator # x) [PathSeparator]"
    by (subst Split_from_sep) (simp_all add: PathSeparator_def)
  have s2: "Split_from [] (''logs'' @ PathSeparator # x) [PathSeparator]
      = ''logs'' # Split_from [] x [PathSeparator]"
    by (subst Split_from_sep) (simp_all add: PathSeparator_def)
  have s3: "Split_from [] x [PathSeparator] = [x]"
    using assms(1) by (simp add: Split_from_no_sep)
  have "Split (''./logs/'' @ x) [PathSeparator] = [''.'', ''logs'', x]"
    using s1 s2 s3 by (simp add: Split_def PathSeparator_def)
  then show ?thesis
    using assms
    by (simp add: Join_def Clean_def logPath_def Let_def HasPrefix_def Clean_step_def
        PathSeparator_def)
qed

lemma logFileName_Join:
  "Join [''.'', logPath, Format t logFileNameFormat @ ''.log'']
     = ''logs/'' @ Format t logFileNameFormat @ ''.log''"
proof (rule Join_logs)
  show "PathSeparator \<notin> set (Format t logFileNameFormat @ ''.log'')"
    using Format_no_separator [of t] by (simp add: PathSeparator_def)
  have "length (Format t logFileNameFormat @ ''.log'') \<ge> 4" by simp
  then show "Format t logFileNameFormat @ ''.log'' \<noteq> []"
    "Format t logFileNameFormat @ ''.log'' \<noteq> ''.''"
    "Format t logFileNameFormat @ ''.log'' \<noteq> ''..''"
    by (auto simp del: length_append)
qed

lemma string_less_append_same: "string_less (x @ u) (x @ v) = string_less u v"
  by (induction x) simp_all

lemma string_less_append_left:
  "length x = length y \<Longrightarrow> string_less x y \<Longrightarrow> string_less (x @ u) (y @ v)"
  by (induction x y rule: list_induct2) auto

lemma length_fixed_digits [simp]: "length (fixed_digits w n) = w"
  by (induction w arbitrary: n) simp_all

lemma fixed_digits_zero: "fixed_digits w 0 = replicate w (CHR ''0'')"
proof (induction w)
  case 0
  show ?case by simp
next
  case (Suc w)
  have "char_of (48::nat) = CHR ''0''" by code_simp
  with Suc show ?case
    by (simp add: replicate_append_same)
qed

lemma length_decimal: "0 < w \<Longrightarrow> n < 10 ^ w \<Longrightarrow> length (decimal n) \<le> w"
proof (induction n arbitrary: w rule: decimal.induct)
  case (1 n)
  show ?case
  proof (cases "n < 10")
    case True
    with "1.prems" show ?thesis by (simp add: decimal.simps [of n])
  next
    case False
    from "1.prems" obtain v where w: "w = Suc v" by (cases w) auto
    with "1.prems" False have v: "0 < v" by (cases v) auto
    from "1.prems" w have "n div 10 < 10 ^ v" by (simp add: less_mult_imp_div_less mult.commute)
    from "1.IH" [OF False v this] False w show ?thesis
      by (simp add: decimal.simps [of n])
  qed
qed

lemma appendInt_fixed: "n < 10 ^ Suc w \<Longrightarrow> appendInt n (Suc w) = fixed_digits (Suc w) n"
proof (induction w arbitrary: n)
  case 0
  then show ?case by (simp add: appendInt_def decimal.simps [of n])
next
  case (Suc w)
  show ?case
  proof (cases "n < 10")
    case True
    then show ?thesis
      by (simp add: appendInt_def decimal.simps [of n] fixed_digits_zero replicate_append_same)
  next
    case False
    from Suc.prems have d: "n div 10 < 10 ^ Suc w"
      by (simp add: less_mult_imp_div_less mult.commute)
    from length_decimal [OF _ d] have l: "length (decimal (n div 10)) \<le> Suc w" by simp
    have "appendInt n (Suc (Suc w)) = appendInt (n div 10) (Suc w) @ [char_of (48 + n mod 10)]"
      using False l by (simp add: appendInt_def decimal.simps [of n] Suc_diff_le)
    with Suc.IH [OF d] show ?thesis by simp
  qed
qed

lemma fixed_digits_less:
  "a < b \<Longrightarrow> b < 10 ^ w \<Longrightarrow> string_less (fixed_digits w a) (fixed_digits w b)"
proof (induction w arbitrary: a b)
  case 0
  then show ?case by simp
next
  case (Suc w)
  from Suc.prems have b: "b div 10 < 10 ^ w"
    by (simp add: less_mult_imp_div_less mult.commute)
  have le: "a div 10 \<le> b div 10"
    using Suc.prems(1) by (simp add: div_le_mono)
  show ?case
  proof (cases "a div 10 < b div 10")
    case True
    from Suc.IH [OF True b] show ?thesis
      by (simp add: string_less_append_left)
  next
    case False
    with le have eq: "a div 10 = b div 10" by simp
    with Suc.prems(1) have "a mod 10 < b mod 10"
      by (metis div_mult_mod_eq nat_add_left_cancel_less)
    then show ?thesis
      by (simp add: eq string_less_append_same digit_char)
  qed
qed

lemma appendInt_less:
  assumes "a < b" and "b < 10 ^ Suc w"
  shows "string_less (appendInt a (Suc w)) (appendInt b (Suc w))"
proof -
  from assms have "a < 10 ^ Suc w" by (rule less_trans)
  then have a: "appendInt a (Suc w) = fixed_digits (Suc w) a" by (rule appendInt_fixed)
  have b: "appendInt b (Suc w) = fixed_digits (Suc w) b" using assms(2) by (rule appendInt_fixed)
  show ?thesis unfolding a b using assms by (rule fixed_digits_less)
qed

lemma length_appendInt: "n < 10 ^ Suc w \<Longrightarrow> length (appendInt n (Suc w)) = Suc w"
  using length_fixed_digits [of "Suc w" n] by (simp only: appendInt_fixed)

lemma field_step:
  assumes "x < 10 ^ Suc w" and "y < 10 ^ Suc w" and "x < y \<or> (x = y \<and> string_less u v)"
  shows "string_less (appendInt x (Suc w) @ u) (appendInt y (Suc w) @ v)"
proof (cases "x < y")
  case True
  have "length (appendInt x (Suc w)) = length (appendInt y (Suc w))"
    using assms(1,2) by (simp only: length_appendInt)
  moreover have "string_less (appendInt x (Suc w)) (appendInt y (Suc w))"
    using True assms(2) by (rule appendInt_less)
  ultimately show ?thesis by (rule string_less_append_left)
next
  case False
  with assms(3) have "x = y" "string_less u v" by simp_all
  then show ?thesis by (simp only: string_less_append_same)
qed

lemma Format_sorts:
  assumes "Time_valid a" and "Time_valid b" and "Time_before a b"
  shows "string_less (Format a logFileNameFormat) (Format b logFileNameFormat)"
proof -
  have n4: "(4::nat) = Suc 3" and n2: "(2::nat) = Suc 1" by simp_all
  have y: "year a < 10 ^ Suc 3" "year b < 10 ^ Suc 3"
    using assms(1,2) by (simp_all add: Time_valid_def)
  have f: "month a < 10 ^ Suc 1" "month b < 10 ^ Suc 1" "day a < 10 ^ Suc 1" "day b < 10 ^ Suc 1"
    "hour a < 10 ^ Suc 1" "hour b < 10 ^ Suc 1" "minute a < 10 ^ Suc 1" "minute b < 10 ^ Suc 1"
    "second a < 10 ^ Suc 1" "second b < 10 ^ Suc 1"
    using assms(1,2) by (simp_all add: Time_valid_def)
  let ?S = "\<lambda>t. appendInt (second t) (Suc 1)"
  let ?M = "\<lambda>t. appendInt (minute t) (Suc 1) @ ?S t"
  let ?H = "\<lambda>t. appendInt (hour t) (Suc 1) @ ?M t"
  let ?D = "\<lambda>t. appendInt (day t) (Suc 1) @ ''-'' @ ?H t"
  let ?Mo = "\<lambda>t. appendInt (month t) (Suc 1) @ ?D t"
  let ?Y = "\<lambda>t. appendInt (year t) (Suc 3) @ ?Mo t"
  have s: "string_less (?S a) (?S b)" if "second a < second b"
    using that f(10) by (rule appendInt_less)
  have m: "string_less (?M a) (?M b)"
    if "minute a < minute b \<or> (minute a = minute b \<and> second a < second b)"
    using that s by (intro field_step f) blast
  have h: "string_less (?H a) (?H b)"
    if "hour a < hour b \<or> (hour a = hour b \<and>
      (minute a < minute b \<or> (minute a = minute b \<and> second a < second b)))"
    using that m by (intro field_step f) blast
  have dash: "string_less (''-'' @ ?H a) (''-'' @ ?H b) = string_less (?H a) (?H b)"
    by (rule string_less_append_same)
  have d: "string_less (?D a) (?D b)"
    if "day a < day b \<or> (day a = day b \<and> (hour a < hour b \<or> (hour a = hour b \<and>
      (minute a < minute b \<or> (minute a = minute b \<and> second a < second b)))))"
    using that h unfolding dash [symmetric] by (intro field_step f) blast
  have mo: "string_less (?Mo a) (?Mo b)"
    if "month a < month b \<or> (month a = month b \<and>
      (day a < day b \<or> (day a = day b \<and> (hour a < hour b \<or> (hour a = hour b \<and>
      (minute a < minute b \<or> (minute a = minute b \<and> second a < second b)))))))"
    using that d by (intro field_step f) blast
  have "string_less (?Y a) (?Y b)"
    using assms(3) mo unfolding Time_before_def by (intro field_step y) blast
  then show ?thesis
    unfolding Format_logFileNameFormat n4 n2 .
qed

lemma length_Format:
  assumes "Time_valid t"
  shows "length (Format t logFileNameFormat) = 15"
proof -
  have n4: "(4::nat) = Suc 3" and n2: "(2::nat) = Suc 1" by simp_all
  have "year t < 10 ^ Suc 3" "month t < 10 ^ Suc 1" "day t < 10 ^ Suc 1"
    "hour t < 10 ^ Suc 1" "minute t < 10 ^ Suc 1" "second t < 10 ^ Suc 1"
    using assms by (simp_all add: Time_valid_def)
  then have "length (appendInt (year t) (Suc 3)) = Suc 3"
    "length (appendInt (month t) (Suc 1)) = Suc 1" "length (appendInt (day t) (Suc 1)) = Suc 1"
    "length (appendInt (hour t) (Suc 1)) = Suc 1" "length (appendInt (minute t) (Suc 1)) = Suc 1"
    "length (appendInt (second t) (Suc 1)) = Suc 1"
    by (simp_all only: length_appendInt)
  then show ?thesis
    unfolding Format_logFileNameFormat n4 n2 by (simp only: length_append) simp
qed

lemma logFileName_sorts:
  assumes "Time_valid a" and "Time_valid b" and "Time_before a b"
  shows "string_less (Join [''.'', logPath, Format a logFileNameFormat @ ''.log''])
    (Join [''.'', logPath, Format b logFileNameFormat @ ''.log''])"
proof -
  have "length (Format a logFileNameFormat) = length (Format b logFileNameFormat)"
    using assms(1,2) by (simp only: length_Format)
  from this Format_sorts [OF assms]
  have "string_less (Format a logFileNameFormat @ ''.log'') (Format b logFileNameFormat @ ''.log'')"
    by (rule string_less_append_left)
  then show ?thesis
    by (simp only: logFileName_Join string_less_append_same)
qed

text \<open>
  What \<open>logErrors\<close> does when the operating system opens the file and refuses the first
  write: it returns the name \<open>logs/<stamp>.log\<close> with \<open>errWriteLog\<close>, and the file holds
  what it held before (nothing, when it was not there).
\<close>

lemma logErrors_first_write_refused:
  assumes name: "name = ''logs/'' @ Format (time_Now env (clock_reads w)) logFileNameFormat @ ''.log''"
    and open_ok: "OpenFile_fails env name (or O_CREATE O_APPEND) 0x180 = None"
    and refused: "WriteString_fails env \<lparr>h_name = name, h_flag = or O_CREATE O_APPEND\<rparr>
      (Error e @ [CHR 0x0A]) = Some msg"
  shows "logErrors env (e # errs) w =
      ((name, Some (errWriteLog msg)),
       w\<lparr>clock_reads := Suc (clock_reads w),
         contents := (contents w)(name \<mapsto>
           (case contents w name of None \<Rightarrow> [] | Some old \<Rightarrow> old))\<rparr>)"
proof -
  let ?h = "\<lparr>h_name = name, h_flag = or O_CREATE O_APPEND\<rparr>"
  let ?old = "case contents w name of None \<Rightarrow> [] | Some old \<Rightarrow> old"
  let ?w1 = "w\<lparr>clock_reads := Suc (clock_reads w)\<rparr>"
  let ?w2 = "?w1\<lparr>contents := (contents w)(name \<mapsto> ?old)\<rparr>"
  have j: "Join [''.'', logPath, Format (time_Now env (clock_reads w)) logFileNameFormat @ ''.log'']
      = name"
    by (simp only: logFileName_Join name)
  have created: "and (or O_CREATE O_APPEND) O_CREATE \<noteq> 0"
    by (simp add: O_CREATE_def O_APPEND_def)
  have o: "OpenFile env name (or O_CREATE O_APPEND) 0x180 ?w1 = (Inr ?h, ?w2)"
  proof (cases "contents w name")
    case None
    then show ?thesis using open_ok created by (simp add: OpenFile_def)
  next
    case (Some old)
    then have "(contents w)(name \<mapsto> old) = contents w" by (simp add: fun_upd_idem)
    with Some show ?thesis using open_ok created by (simp add: OpenFile_def)
  qed
  have l: "WriteString env ?h (Error e @ [CHR 0x0A]) w' = (Some msg, w')" for w'
    using refused by (simp add: WriteString_def)
  show ?thesis
    unfolding logErrors_def j Let_def o by (simp add: l)
qed

text \<open>The handle of \<open>logErrors\<close> is open for reading only.\<close>

lemma logErrors_handle_read_only:
  "unix_WriteString_fails \<lparr>h_name = name, h_flag = or O_CREATE O_APPEND\<rparr> data
     = Some (''write '' @ name @ '': bad file descriptor'')"
  by (simp add: unix_WriteString_fails_def O_CREATE_def O_APPEND_def O_WRONLY_def O_RDWR_def)

lemma logErrors_unix_fails:
  assumes "WriteString_fails env = unix_WriteString_fails"
    and "name = ''logs/'' @ Format (time_Now env (clock_reads w)) logFileNameFormat @ ''.log''"
    and "OpenFile_fails env name (or O_CREATE O_APPEND) 0x180 = None"
    and "errs \<noteq> []"
  shows "fst (logErrors env errs w)
    = (name, Some (errWriteLog (''write '' @ name @ '': bad file descriptor'')))"
proof -
  from assms(4) obtain e rest where errs: "errs = e # rest" by (cases errs) auto
  have "WriteString_fails env \<lparr>h_name = name, h_flag = or O_CREATE O_APPEND\<rparr>
      (Error e @ [CHR 0x0A]) = Some (''write '' @ name @ '': bad file descriptor'')"
    by (simp only: assms(1) logErrors_handle_read_only)
  from logErrors_first_write_refused [OF assms(2,3) this, of rest] show ?thesis
    by (simp add: errs)
qed

text \<open>
  C7. \<open>logErrors\<close> opens the log file with \<open>O_CREATE|O_APPEND\<close> and neither \<open>O_WRONLY\<close>
  nor \<open>O_RDWR\<close>. On Unix the file is created, under the name \<open>logs/<stamp>.log\<close> the
  claim describes, but the first write is refused (for every list that is not empty:
  the lemma above). For the list of one error \<open>copy failed\<close>, \<open>logErrors\<close> returns
  \<open>failed to write log file\<close> and leaves the file empty, where the claim has the line
  written and no error.
\<close>

theorem logErrors_cannot_write:
  "logErrors example_env_unix [External ''copy failed''] w0 =
     ((''logs/20240102-030405.log'',
       Some (errWriteLog ''write logs/20240102-030405.log: bad file descriptor'')),
      w0\<lparr>clock_reads := 1, contents := [''logs/20240102-030405.log'' \<mapsto> []]\<rparr>)
   \<and> Error (errWriteLog ''write logs/20240102-030405.log: bad file descriptor'')
     = ''failed to write log file: write logs/20240102-030405.log: bad file descriptor''"
proof -
  let ?a = "\<lparr>year = 2024, month = 1, day = 2, hour = 3, minute = 4, second = 5\<rparr>"
  have fa: "Format ?a logFileNameFormat = ''20240102-030405''"
    by code_simp
  have t: "time_Now example_env_unix (clock_reads w0) = ?a"
    by (simp add: example_env_unix_def example_env_def w0_def)
  have n: "''logs/20240102-030405.log''
      = ''logs/'' @ Format (time_Now example_env_unix (clock_reads w0)) logFileNameFormat @ ''.log''"
    by (simp only: t fa append.simps)
  have o: "OpenFile_fails example_env_unix ''logs/20240102-030405.log'' (or O_CREATE O_APPEND) 0x180
      = None"
    by (simp add: example_env_unix_def example_env_def)
  have r: "WriteString_fails example_env_unix
      \<lparr>h_name = ''logs/20240102-030405.log'', h_flag = or O_CREATE O_APPEND\<rparr>
      (Error (External ''copy failed'') @ [CHR 0x0A])
      = Some (''write logs/20240102-030405.log: bad file descriptor'')"
    using logErrors_handle_read_only [of "''logs/20240102-030405.log''"]
    by (simp add: example_env_unix_def example_env_def)
  have m: "Error (errWriteLog ''write logs/20240102-030405.log: bad file descriptor'')
     = ''failed to write log file: write logs/20240102-030405.log: bad file descriptor''"
    by (simp add: Error_def)
  from logErrors_first_write_refused [OF n o r, of "[]"] m show ?thesis
    by (simp add: w0_def)
qed

end
